theory Spec2Isabelle
  imports Main "HOL-Library.Word"
begin

section \<open>The bolt persistence store of the MQTT broker\<close>

text \<open>
  The package \<open>bolt\<close> wraps one handle of the embedded engine (storm over bbolt) and
  offers typed writes, deletes and reads of five record kinds plus the sweep of expired
  inflight messages. The store's own functions are embedded here one by one, in the order
  of the source file; the engine they call and the record types of the package
  \<open>persistence\<close> are not part of the source file and are modelled first.
\<close>

subsection \<open>Errors\<close>

text \<open>
  Go's \<open>error\<close> results are values of \<open>error option\<close>, \<open>None\<close> being \<open>nil\<close>.
  \<open>ErrDBNotOpen\<close> is the package's own error value, \<open>ErrNotFound\<close> is the engine's
  \<open>storm.ErrNotFound\<close>, which the read functions compare against. Every other error of
  the engine is a value different from both: \<open>ErrZeroID\<close> (a record saved with an empty
  identifier), \<open>ErrDatabaseNotOpen\<close> (a transaction on a closed database) and
  \<open>ErrIO\<close> (an input/output failure, with its message).
\<close>

datatype error =
    ErrDBNotOpen
  | ErrNotFound
  | ErrZeroID
  | ErrDatabaseNotOpen
  | ErrIO string

text \<open>A method called through a nil pointer stops the process.\<close>

datatype panic = NilDereference

subsection \<open>Records of the package persistence\<close>

text \<open>
  Modelled from the spec: the record types and the kind constants of the package
  \<open>persistence\<close>, which the store imports. Each record has its identifier \<open>ID\<close>;
  clients, subscriptions and messages carry the kind discriminator \<open>T\<close> that the reads
  filter on; a message has its created timestamp in unix seconds (Go's \<open>int64\<close>). The
  remaining fields are the semantic fields of the spec's data model.
\<close>

record ServerInfo =
  Info :: string
  ID :: string

record Client =
  ID :: string
  T :: string
  ProtocolVersion :: "8 word"
  CleanSession :: bool
  LastWill :: string

record Subscription =
  ID :: string
  T :: string
  ClientID :: string
  Filter :: string
  QoS :: "8 word"

record Message =
  Payload :: string
  T :: string
  ID :: string
  TopicName :: string
  QoS :: "8 word"
  PacketID :: "16 word"
  Created :: "64 word"

text \<open>
  Modelled from the spec: the five kind constants, five pairwise different strings.
\<close>

definition KSubscription :: string where
  "KSubscription = ''sub''"

definition KServerInfo :: string where
  "KServerInfo = ''srv''"

definition KRetained :: string where
  "KRetained = ''ret''"

definition KInflight :: string where
  "KInflight = ''ifm''"

definition KClient :: string where
  "KClient = ''cl''"

text \<open>Go's zero values of the four record types.\<close>

definition zero_ServerInfo :: ServerInfo where
  "zero_ServerInfo = \<lparr>Info = [], ServerInfo.ID = []\<rparr>"

definition zero_Client :: Client where
  "zero_Client = \<lparr>Client.ID = [], Client.T = [], ProtocolVersion = 0,
     CleanSession = False, LastWill = []\<rparr>"

definition zero_Subscription :: Subscription where
  "zero_Subscription = \<lparr>Subscription.ID = [], Subscription.T = [], ClientID = [],
     Filter = [], Subscription.QoS = 0\<rparr>"

definition zero_Message :: Message where
  "zero_Message = \<lparr>Payload = [], T = [], ID = [], TopicName = [], QoS = 0,
     PacketID = 0, Created = 0\<rparr>"

subsection \<open>The embedded engine\<close>

text \<open>
  The engine (the libraries storm and bbolt) is not part of the repository: the store
  calls its \<open>Open\<close>, \<open>Close\<close>, \<open>Save\<close>, \<open>DeleteStruct\<close>, \<open>Find\<close> and \<open>One\<close>.
  What follows is the contract of these calls. Where the spec describes the engine the
  contract is the spec's: one container per record type, keyed by the identifier, with
  the messages of both kinds in one container; a write under a stored identifier
  overwrites; every call is one transaction, visible in full or not at all; not-found is
  an error the engine reports when nothing matches, and an input/output failure is an
  error different from it. The rest is the documented behaviour of the library:
  \<open>DeleteStruct\<close> reports not-found for an identifier that is not stored, \<open>Save\<close>
  refuses a zero identifier, and a closed database refuses every transaction.

  A container (bucket) is a list of records here, pairwise different in their
  identifiers (the predicate \<open>wf_DB\<close> below), in the order of first insertion.
  \<open>opened\<close> is cleared by \<open>Close\<close>. \<open>faults\<close> says what happens to the coming
  transactions, one entry per transaction: \<open>Some msg\<close> makes it fail with the
  input/output error \<open>msg\<close> and change nothing, \<open>None\<close> (or no entry) lets it run.
\<close>

record DB =
  opened :: bool
  faults :: "string option list"
  ServerInfo_bucket :: "ServerInfo list"
  Client_bucket :: "Client list"
  Subscription_bucket :: "Subscription list"
  Message_bucket :: "Message list"

definition begin_tx :: "DB \<Rightarrow> error option \<times> DB" where
  "begin_tx d =
     (if \<not> opened d then (Some ErrDatabaseNotOpen, d)
      else case faults d of
             [] \<Rightarrow> (None, d)
           | f # fs \<Rightarrow> (map_option ErrIO f, d\<lparr>faults := fs\<rparr>))"

text \<open>Writing under a key: the record stored under that key is replaced, else added.\<close>

definition put :: "('r \<Rightarrow> string) \<Rightarrow> 'r \<Rightarrow> 'r list \<Rightarrow> 'r list" where
  "put key v b =
     (if key v \<in> set (map key b) then map (\<lambda>r. if key r = key v then v else r) b
      else b @ [v])"

text \<open>
  \<open>Save\<close> upserts the record under its identifier and refuses an empty identifier.
  \<open>DeleteStruct\<close> removes the record stored under the identifier of the given record,
  reading no other field of it, and reports \<open>ErrNotFound\<close> when there is none.
  \<open>Find\<close> selects the records of a bucket whose field equals the value and \<open>One\<close> the
  first of them; both report \<open>ErrNotFound\<close> and leave the destination as it was when
  nothing matches. The bucket is given by its selector and its update function, the
  identifier and the field by their selectors.
\<close>

definition storm_Save ::
  "(DB \<Rightarrow> 'r list) \<Rightarrow> (('r list \<Rightarrow> 'r list) \<Rightarrow> DB \<Rightarrow> DB) \<Rightarrow> ('r \<Rightarrow> string) \<Rightarrow>
     'r \<Rightarrow> DB \<Rightarrow> error option \<times> DB" where
  "storm_Save bucket bucket_update key v d =
     (if key v = [] then (Some ErrZeroID, d)
      else case begin_tx d of
             (Some e, d') \<Rightarrow> (Some e, d')
           | (None, d') \<Rightarrow> (None, bucket_update (put key v) d'))"

definition storm_DeleteStruct ::
  "(DB \<Rightarrow> 'r list) \<Rightarrow> (('r list \<Rightarrow> 'r list) \<Rightarrow> DB \<Rightarrow> DB) \<Rightarrow> ('r \<Rightarrow> string) \<Rightarrow>
     'r \<Rightarrow> DB \<Rightarrow> error option \<times> DB" where
  "storm_DeleteStruct bucket bucket_update key v d =
     (case begin_tx d of
        (Some e, d') \<Rightarrow> (Some e, d')
      | (None, d') \<Rightarrow>
          if key v \<in> set (map key (bucket d'))
          then (None, bucket_update (filter (\<lambda>r. key r \<noteq> key v)) d')
          else (Some ErrNotFound, d'))"

definition storm_Find ::
  "(DB \<Rightarrow> 'r list) \<Rightarrow> ('r \<Rightarrow> string) \<Rightarrow> string \<Rightarrow> 'r list \<Rightarrow> DB \<Rightarrow>
     error option \<times> 'r list \<times> DB" where
  "storm_Find bucket field val to d =
     (case begin_tx d of
        (Some e, d') \<Rightarrow> (Some e, to, d')
      | (None, d') \<Rightarrow>
          (case filter (\<lambda>r. field r = val) (bucket d') of
             [] \<Rightarrow> (Some ErrNotFound, to, d')
           | r # rs \<Rightarrow> (None, r # rs, d')))"

definition storm_One ::
  "(DB \<Rightarrow> 'r list) \<Rightarrow> ('r \<Rightarrow> string) \<Rightarrow> string \<Rightarrow> 'r \<Rightarrow> DB \<Rightarrow>
     error option \<times> 'r \<times> DB" where
  "storm_One bucket field val to d =
     (case begin_tx d of
        (Some e, d') \<Rightarrow> (Some e, to, d')
      | (None, d') \<Rightarrow>
          (case filter (\<lambda>r. field r = val) (bucket d') of
             [] \<Rightarrow> (Some ErrNotFound, to, d')
           | r # rs \<Rightarrow> (None, r, d')))"

definition storm_Close :: "DB \<Rightarrow> DB" where
  "storm_Close d = d\<lparr>opened := False\<rparr>"

text \<open>The engine calls of the store, one per record type.\<close>

definition Save_ServerInfo :: "ServerInfo \<Rightarrow> DB \<Rightarrow> error option \<times> DB" where
  "Save_ServerInfo = storm_Save ServerInfo_bucket ServerInfo_bucket_update ServerInfo.ID"

definition Save_Subscription :: "Subscription \<Rightarrow> DB \<Rightarrow> error option \<times> DB" where
  "Save_Subscription =
     storm_Save Subscription_bucket Subscription_bucket_update Subscription.ID"

definition Save_Client :: "Client \<Rightarrow> DB \<Rightarrow> error option \<times> DB" where
  "Save_Client = storm_Save Client_bucket Client_bucket_update Client.ID"

definition Save_Message :: "Message \<Rightarrow> DB \<Rightarrow> error option \<times> DB" where
  "Save_Message = storm_Save Message_bucket Message_bucket_update ID"

definition DeleteStruct_Subscription :: "Subscription \<Rightarrow> DB \<Rightarrow> error option \<times> DB" where
  "DeleteStruct_Subscription =
     storm_DeleteStruct Subscription_bucket Subscription_bucket_update Subscription.ID"

definition DeleteStruct_Client :: "Client \<Rightarrow> DB \<Rightarrow> error option \<times> DB" where
  "DeleteStruct_Client = storm_DeleteStruct Client_bucket Client_bucket_update Client.ID"

definition DeleteStruct_Message :: "Message \<Rightarrow> DB \<Rightarrow> error option \<times> DB" where
  "DeleteStruct_Message = storm_DeleteStruct Message_bucket Message_bucket_update ID"

definition Find_Subscription ::
  "(Subscription \<Rightarrow> string) \<Rightarrow> string \<Rightarrow> Subscription list \<Rightarrow> DB \<Rightarrow>
     error option \<times> Subscription list \<times> DB" where
  "Find_Subscription = storm_Find Subscription_bucket"

definition Find_Client ::
  "(Client \<Rightarrow> string) \<Rightarrow> string \<Rightarrow> Client list \<Rightarrow> DB \<Rightarrow>
     error option \<times> Client list \<times> DB" where
  "Find_Client = storm_Find Client_bucket"

definition Find_Message ::
  "(Message \<Rightarrow> string) \<Rightarrow> string \<Rightarrow> Message list \<Rightarrow> DB \<Rightarrow>
     error option \<times> Message list \<times> DB" where
  "Find_Message = storm_Find Message_bucket"

definition One_ServerInfo ::
  "(ServerInfo \<Rightarrow> string) \<Rightarrow> string \<Rightarrow> ServerInfo \<Rightarrow> DB \<Rightarrow>
     error option \<times> ServerInfo \<times> DB" where
  "One_ServerInfo = storm_One ServerInfo_bucket"

text \<open>
  The state of a database file that has just been created, and the invariant of every
  database: within a bucket no two records have the same identifier.
\<close>

definition empty_DB :: DB where
  "empty_DB = \<lparr>opened = True, faults = [], ServerInfo_bucket = [], Client_bucket = [],
     Subscription_bucket = [], Message_bucket = []\<rparr>"

definition wf_DB :: "DB \<Rightarrow> bool" where
  "wf_DB d \<longleftrightarrow>
     distinct (map ServerInfo.ID (ServerInfo_bucket d)) \<and>
     distinct (map Client.ID (Client_bucket d)) \<and>
     distinct (map Subscription.ID (Subscription_bucket d)) \<and>
     distinct (map ID (Message_bucket d))"

subsection \<open>The store\<close>

text \<open>
  The options of the engine's file: the bounded wait for the file lock, a duration in
  nanoseconds (Go's \<open>time.Duration\<close>, an \<open>int64\<close>), and further settings of the
  engine, all zero in the options the store builds itself.
\<close>

record Options =
  Timeout :: "64 word"
  NoGrowSync :: bool
  ReadOnly :: bool
  MmapFlags :: int
  InitialMmapSize :: int

definition Millisecond :: "64 word" where
  "Millisecond = 1000000"

definition defaultPath :: string where
  "defaultPath = ''mochi.db''"

definition defaultTimeout :: "64 word" where
  "defaultTimeout = 250 * Millisecond"

text \<open>
  The fields \<open>opts\<close> and \<open>db\<close> are pointers: \<open>None\<close> is nil. The handle points to
  the engine's state, which the calls change in place, so every function of the store
  returns the store with the state it left.
\<close>

record Store =
  path :: string
  opts :: "Options option"
  db :: "DB option"
  inflightTTL :: "64 word"

definition New :: "string \<Rightarrow> Options option \<Rightarrow> Store" where
  "New path0 opts0 =
     (let path1 = (if path0 = [] \<or> path0 = ''.'' then defaultPath else path0);
          opts1 = (case opts0 of
                     None \<Rightarrow> Some \<lparr>Timeout = defaultTimeout, NoGrowSync = False,
                                ReadOnly = False, MmapFlags = 0, InitialMmapSize = 0\<rparr>
                   | Some p \<Rightarrow> Some p)
      in \<lparr>path = path1, opts = opts1, db = None, inflightTTL = 0\<rparr>)"

definition SetInflightTTL :: "64 word \<Rightarrow> Store \<Rightarrow> Store" where
  "SetInflightTTL seconds s = s\<lparr>inflightTTL := seconds\<rparr>"

text \<open>
  \<open>Open\<close> asks the engine to open the file; what the engine answers for a path and
  options is the environment's, the parameter \<open>storm_Open\<close>. The handle is assigned
  in both cases and is nil when the engine fails.
\<close>

definition Open ::
  "(string \<Rightarrow> Options option \<Rightarrow> error + DB) \<Rightarrow> Store \<Rightarrow> error option \<times> Store" where
  "Open storm_Open s =
     (case storm_Open (path s) (opts s) of
        Inl err \<Rightarrow> (Some err, s\<lparr>db := None\<rparr>)
      | Inr d \<Rightarrow> (None, s\<lparr>db := Some d\<rparr>))"

text \<open>
  \<open>Close\<close> has no result and no check of the handle: on a nil handle the call
  dereferences nil. The handle stays assigned after the engine has closed.
\<close>

definition Close :: "Store \<Rightarrow> panic + Store" where
  "Close s =
     (case db s of
        None \<Rightarrow> Inl NilDereference
      | Some d \<Rightarrow> Inr (s\<lparr>db := Some (storm_Close d)\<rparr>))"

text \<open>
  The writes. Each hands the record to the engine's \<open>Save\<close> and returns its error.
\<close>

definition WriteServerInfo :: "ServerInfo \<Rightarrow> Store \<Rightarrow> error option \<times> Store" where
  "WriteServerInfo v s =
     (case db s of
        None \<Rightarrow> (Some ErrDBNotOpen, s)
      | Some d \<Rightarrow>
          (case Save_ServerInfo v d of
             (Some err, d') \<Rightarrow> (Some err, s\<lparr>db := Some d'\<rparr>)
           | (None, d') \<Rightarrow> (None, s\<lparr>db := Some d'\<rparr>)))"

definition WriteSubscription :: "Subscription \<Rightarrow> Store \<Rightarrow> error option \<times> Store" where
  "WriteSubscription v s =
     (case db s of
        None \<Rightarrow> (Some ErrDBNotOpen, s)
      | Some d \<Rightarrow>
          (case Save_Subscription v d of
             (Some err, d') \<Rightarrow> (Some err, s\<lparr>db := Some d'\<rparr>)
           | (None, d') \<Rightarrow> (None, s\<lparr>db := Some d'\<rparr>)))"

definition WriteInflight :: "Message \<Rightarrow> Store \<Rightarrow> error option \<times> Store" where
  "WriteInflight v s =
     (case db s of
        None \<Rightarrow> (Some ErrDBNotOpen, s)
      | Some d \<Rightarrow>
          (case Save_Message v d of
             (Some err, d') \<Rightarrow> (Some err, s\<lparr>db := Some d'\<rparr>)
           | (None, d') \<Rightarrow> (None, s\<lparr>db := Some d'\<rparr>)))"

definition WriteRetained :: "Message \<Rightarrow> Store \<Rightarrow> error option \<times> Store" where
  "WriteRetained v s =
     (case db s of
        None \<Rightarrow> (Some ErrDBNotOpen, s)
      | Some d \<Rightarrow>
          (case Save_Message v d of
             (Some err, d') \<Rightarrow> (Some err, s\<lparr>db := Some d'\<rparr>)
           | (None, d') \<Rightarrow> (None, s\<lparr>db := Some d'\<rparr>)))"

definition WriteClient :: "Client \<Rightarrow> Store \<Rightarrow> error option \<times> Store" where
  "WriteClient v s =
     (case db s of
        None \<Rightarrow> (Some ErrDBNotOpen, s)
      | Some d \<Rightarrow>
          (case Save_Client v d of
             (Some err, d') \<Rightarrow> (Some err, s\<lparr>db := Some d'\<rparr>)
           | (None, d') \<Rightarrow> (None, s\<lparr>db := Some d'\<rparr>)))"

text \<open>
  The deletes. Each builds a record of the kind's type with only the identifier set and
  hands it to the engine's \<open>DeleteStruct\<close>; the engine's error is returned as it is.
  \<open>DeleteInflight\<close> and \<open>DeleteRetained\<close> have the same body.
\<close>

definition DeleteSubscription :: "string \<Rightarrow> Store \<Rightarrow> error option \<times> Store" where
  "DeleteSubscription id' s =
     (case db s of
        None \<Rightarrow> (Some ErrDBNotOpen, s)
      | Some d \<Rightarrow>
          (case DeleteStruct_Subscription (zero_Subscription\<lparr>Subscription.ID := id'\<rparr>) d of
             (Some err, d') \<Rightarrow> (Some err, s\<lparr>db := Some d'\<rparr>)
           | (None, d') \<Rightarrow> (None, s\<lparr>db := Some d'\<rparr>)))"

definition DeleteClient :: "string \<Rightarrow> Store \<Rightarrow> error option \<times> Store" where
  "DeleteClient id' s =
     (case db s of
        None \<Rightarrow> (Some ErrDBNotOpen, s)
      | Some d \<Rightarrow>
          (case DeleteStruct_Client (zero_Client\<lparr>Client.ID := id'\<rparr>) d of
             (Some err, d') \<Rightarrow> (Some err, s\<lparr>db := Some d'\<rparr>)
           | (None, d') \<Rightarrow> (None, s\<lparr>db := Some d'\<rparr>)))"

definition DeleteInflight :: "string \<Rightarrow> Store \<Rightarrow> error option \<times> Store" where
  "DeleteInflight id' s =
     (case db s of
        None \<Rightarrow> (Some ErrDBNotOpen, s)
      | Some d \<Rightarrow>
          (case DeleteStruct_Message (zero_Message\<lparr>ID := id'\<rparr>) d of
             (Some err, d') \<Rightarrow> (Some err, s\<lparr>db := Some d'\<rparr>)
           | (None, d') \<Rightarrow> (None, s\<lparr>db := Some d'\<rparr>)))"

definition DeleteRetained :: "string \<Rightarrow> Store \<Rightarrow> error option \<times> Store" where
  "DeleteRetained id' s =
     (case db s of
        None \<Rightarrow> (Some ErrDBNotOpen, s)
      | Some d \<Rightarrow>
          (case DeleteStruct_Message (zero_Message\<lparr>ID := id'\<rparr>) d of
             (Some err, d') \<Rightarrow> (Some err, s\<lparr>db := Some d'\<rparr>)
           | (None, d') \<Rightarrow> (None, s\<lparr>db := Some d'\<rparr>)))"

text \<open>
  The reads. The result \<open>v\<close> starts as the zero value, the engine fills it, and
  \<open>ErrNotFound\<close> is turned into success; any other error is returned with \<open>v\<close>.
\<close>

definition ReadSubscriptions :: "Store \<Rightarrow> (Subscription list \<times> error option) \<times> Store" where
  "ReadSubscriptions s =
     (case db s of
        None \<Rightarrow> (([], Some ErrDBNotOpen), s)
      | Some d \<Rightarrow>
          (case Find_Subscription Subscription.T KSubscription [] d of
             (err, v, d') \<Rightarrow>
               if err \<noteq> None \<and> err \<noteq> Some ErrNotFound
               then ((v, err), s\<lparr>db := Some d'\<rparr>)
               else ((v, None), s\<lparr>db := Some d'\<rparr>)))"

definition ReadClients :: "Store \<Rightarrow> (Client list \<times> error option) \<times> Store" where
  "ReadClients s =
     (case db s of
        None \<Rightarrow> (([], Some ErrDBNotOpen), s)
      | Some d \<Rightarrow>
          (case Find_Client Client.T KClient [] d of
             (err, v, d') \<Rightarrow>
               if err \<noteq> None \<and> err \<noteq> Some ErrNotFound
               then ((v, err), s\<lparr>db := Some d'\<rparr>)
               else ((v, None), s\<lparr>db := Some d'\<rparr>)))"

definition ReadInflight :: "Store \<Rightarrow> (Message list \<times> error option) \<times> Store" where
  "ReadInflight s =
     (case db s of
        None \<Rightarrow> (([], Some ErrDBNotOpen), s)
      | Some d \<Rightarrow>
          (case Find_Message T KInflight [] d of
             (err, v, d') \<Rightarrow>
               if err \<noteq> None \<and> err \<noteq> Some ErrNotFound
               then ((v, err), s\<lparr>db := Some d'\<rparr>)
               else ((v, None), s\<lparr>db := Some d'\<rparr>)))"

definition ReadRetained :: "Store \<Rightarrow> (Message list \<times> error option) \<times> Store" where
  "ReadRetained s =
     (case db s of
        None \<Rightarrow> (([], Some ErrDBNotOpen), s)
      | Some d \<Rightarrow>
          (case Find_Message T KRetained [] d of
             (err, v, d') \<Rightarrow>
               if err \<noteq> None \<and> err \<noteq> Some ErrNotFound
               then ((v, err), s\<lparr>db := Some d'\<rparr>)
               else ((v, None), s\<lparr>db := Some d'\<rparr>)))"

definition ReadServerInfo :: "Store \<Rightarrow> (ServerInfo \<times> error option) \<times> Store" where
  "ReadServerInfo s =
     (case db s of
        None \<Rightarrow> ((zero_ServerInfo, Some ErrDBNotOpen), s)
      | Some d \<Rightarrow>
          (case One_ServerInfo ServerInfo.ID KServerInfo zero_ServerInfo d of
             (err, v, d') \<Rightarrow>
               if err \<noteq> None \<and> err \<noteq> Some ErrNotFound
               then ((v, err), s\<lparr>db := Some d'\<rparr>)
               else ((v, None), s\<lparr>db := Some d'\<rparr>)))"

text \<open>
  The sweep of expired inflight messages. \<open>stale\<close> is the test of the loop body (a
  signed comparison of two \<open>int64\<close>), \<open>ClearExpiredInflight_loop\<close> the loop over the
  messages found: it returns at the first delete that fails.
\<close>

definition stale :: "64 word \<Rightarrow> Message \<Rightarrow> bool" where
  "stale expiry m \<longleftrightarrow> Created m <s expiry \<or> Created m = 0"

fun ClearExpiredInflight_loop :: "64 word \<Rightarrow> Message list \<Rightarrow> DB \<Rightarrow> error option \<times> DB" where
  "ClearExpiredInflight_loop expiry [] d = (None, d)"
| "ClearExpiredInflight_loop expiry (m # v) d =
     (if stale expiry m
      then (case DeleteStruct_Message (zero_Message\<lparr>ID := ID m\<rparr>) d of
              (Some err, d') \<Rightarrow> (Some err, d')
            | (None, d') \<Rightarrow> ClearExpiredInflight_loop expiry v d')
      else ClearExpiredInflight_loop expiry v d)"

definition ClearExpiredInflight :: "64 word \<Rightarrow> Store \<Rightarrow> error option \<times> Store" where
  "ClearExpiredInflight expiry s =
     (case db s of
        None \<Rightarrow> (Some ErrDBNotOpen, s)
      | Some d \<Rightarrow>
          (case Find_Message T KInflight [] d of
             (err, v, d') \<Rightarrow>
               if err \<noteq> None \<and> err \<noteq> Some ErrNotFound
               then (err, s\<lparr>db := Some d'\<rparr>)
               else (case ClearExpiredInflight_loop expiry v d' of
                       (err', d'') \<Rightarrow> (err', s\<lparr>db := Some d''\<rparr>))))"

subsection \<open>Contents and example stores\<close>

text \<open>
  The contents of a database are its four buckets; the flag \<open>opened\<close> and the list
  \<open>faults\<close> are not part of them.
\<close>

definition contents ::
  "DB \<Rightarrow> ServerInfo list \<times> Client list \<times> Subscription list \<times> Message list" where
  "contents d =
     (ServerInfo_bucket d, Client_bucket d, Subscription_bucket d, Message_bucket d)"

text \<open>The store as a call leaves it, whatever the call returns.\<close>

definition state_after :: "(Store \<Rightarrow> 'a \<times> Store) \<Rightarrow> Store \<Rightarrow> Store" where
  "state_after f s = snd (f s)"

text \<open>
  Stores and records on which the properties below are run: \<open>opened_on d\<close> is a store
  built with no path and no options and opened on a file whose state is \<open>d\<close>.
\<close>

definition inflight :: "string \<Rightarrow> 64 word \<Rightarrow> Message" where
  "inflight i c = zero_Message\<lparr>T := KInflight, ID := i, Created := c\<rparr>"

definition retained :: "string \<Rightarrow> string \<Rightarrow> Message" where
  "retained i p = zero_Message\<lparr>Payload := p, T := KRetained, ID := i\<rparr>"

definition opened_on :: "DB \<Rightarrow> Store" where
  "opened_on d = snd (Open (\<lambda>p q. Inr d) (New [] None))"

definition client :: "string \<Rightarrow> string \<Rightarrow> Client" where
  "client i w = zero_Client\<lparr>Client.ID := i, Client.T := KClient, LastWill := w\<rparr>"

definition subscription :: "string \<Rightarrow> string \<Rightarrow> Subscription" where
  "subscription i f =
     zero_Subscription\<lparr>Subscription.ID := i, Subscription.T := KSubscription, Filter := f\<rparr>"

definition server_info :: "string \<Rightarrow> ServerInfo" where
  "server_info b = \<lparr>Info = b, ServerInfo.ID = KServerInfo\<rparr>"

definition sweep_DB :: DB where
  "sweep_DB = empty_DB\<lparr>Message_bucket :=
     [inflight ''a'' 0, inflight ''b'' 100, retained ''r'' ''p'', inflight ''c'' 200,
      inflight ''d'' 300]\<rparr>"

definition faulty_DB :: DB where
  "faulty_DB = sweep_DB\<lparr>faults := [None, None, Some ''disk full'']\<rparr>"

definition closed_store :: Store where
  "closed_store = (opened_on sweep_DB)\<lparr>db := Some (sweep_DB\<lparr>opened := False\<rparr>)\<rparr>"

section \<open>Properties\<close>

lemmas fixture_defs = inflight_def retained_def opened_on_def sweep_DB_def state_after_def
  Open_def New_def empty_DB_def zero_Message_def KInflight_def KRetained_def defaultPath_def
  defaultTimeout_def Millisecond_def

subsection \<open>Buckets\<close>

lemma filter_absent: "k \<notin> set (map key b) \<Longrightarrow> filter (\<lambda>r. key r = k) b = []"
  by (induction b) auto

lemma replace_filter_other:
  "filter (\<lambda>r. key r \<noteq> key v) (map (\<lambda>r. if key r = key v then v else r) b) =
     filter (\<lambda>r. key r \<noteq> key v) b"
  by (induction b) auto

lemma replace_absent:
  "key v \<notin> set (map key b) \<Longrightarrow>
     filter (\<lambda>r. key r = key v) (map (\<lambda>r. if key r = key v then v else r) b) = []"
  by (induction b) auto

lemma replace_filter_same:
  "distinct (map key b) \<Longrightarrow> key v \<in> set (map key b) \<Longrightarrow>
     filter (\<lambda>r. key r = key v) (map (\<lambda>r. if key r = key v then v else r) b) = [v]"
proof (induction b)
  case Nil
  then show ?case by simp
next
  case (Cons a b)
  show ?case
  proof (cases "key a = key v")
    case True
    with Cons.prems have "key v \<notin> set (map key b)" by auto
    from replace_absent [OF this] True show ?thesis by simp
  next
    case False
    with Cons show ?thesis by auto
  qed
qed

lemma put_filter_same:
  "distinct (map key b) \<Longrightarrow> filter (\<lambda>r. key r = key v) (put key v b) = [v]"
proof (cases "key v \<in> set (map key b)")
  case True
  assume "distinct (map key b)"
  from replace_filter_same [OF this True] True show ?thesis by (simp add: put_def)
next
  case False
  then have "filter (\<lambda>r. key r = key v) b = []"
    by (rule filter_absent)
  with False show ?thesis by (simp add: put_def)
qed

lemma put_filter_other:
  "filter (\<lambda>r. key r \<noteq> key v) (put key v b) = filter (\<lambda>r. key r \<noteq> key v) b"
  by (simp add: put_def replace_filter_other)

lemma put_keys_same: "key v \<in> set (map key b) \<Longrightarrow> map key (put key v b) = map key b"
  by (induction b) (auto simp: put_def)

lemma put_distinct: "distinct (map key b) \<Longrightarrow> distinct (map key (put key v b))"
proof (cases "key v \<in> set (map key b)")
  case True
  assume "distinct (map key b)"
  with put_keys_same [OF True] show ?thesis by simp
next
  case False
  assume "distinct (map key b)"
  with False show ?thesis by (simp add: put_def)
qed

lemma put_length: "key v \<in> set (map key b) \<Longrightarrow> length (put key v b) = length b"
  by (simp add: put_def)

lemma put_member: "key v \<in> set (map key (put key v b))"
  by (induction b) (auto simp: put_def)

lemma filter_key_le_1:
  "distinct (map key b) \<Longrightarrow> length (filter (\<lambda>r. key r = k) b) \<le> 1"
proof (induction b)
  case Nil
  then show ?case by simp
next
  case (Cons a b)
  show ?case
  proof (cases "key a = k")
    case True
    with Cons.prems have "k \<notin> set (map key b)" by auto
    from filter_absent [OF this] True show ?thesis by simp
  next
    case False
    with Cons show ?thesis by simp
  qed
qed

lemma remove_key_length:
  assumes "distinct (map key b)"
  shows "length b \<le> Suc (length (filter (\<lambda>r. key r \<noteq> k) b))"
proof -
  have "length b = length (filter (\<lambda>r. key r = k) b) + length (filter (\<lambda>r. key r \<noteq> k) b)"
    using sum_length_filter_compl [of "\<lambda>r. key r = k" b] by simp
  with filter_key_le_1 [OF assms, of k] show ?thesis by simp
qed

lemma filter_absent_other:
  "k \<notin> set (map key b) \<Longrightarrow> filter (\<lambda>r. key r \<noteq> k) b = b"
  by (induction b) auto

subsection \<open>Transactions of the engine\<close>

lemma begin_tx_frame:
  "begin_tx d = (e, d') \<Longrightarrow>
     contents d' = contents d \<and> opened d' = opened d \<and> e \<noteq> Some ErrNotFound \<and>
     e \<noteq> Some ErrDBNotOpen \<and> (opened d \<and> faults d = [] \<longrightarrow> e = None)"
  by (auto simp: begin_tx_def contents_def split: if_splits list.splits)

lemma begin_tx_closed: "\<not> opened d \<Longrightarrow> begin_tx d = (Some ErrDatabaseNotOpen, d)"
  by (simp add: begin_tx_def)

lemma begin_tx_healthy: "opened d \<Longrightarrow> faults d = [] \<Longrightarrow> begin_tx d = (None, d)"
  by (simp add: begin_tx_def)

lemma Save_ServerInfo_ok:
  "Save_ServerInfo v d = (None, d') \<Longrightarrow>
     ServerInfo_bucket d' = put ServerInfo.ID v (ServerInfo_bucket d) \<and> ServerInfo.ID v \<noteq> []"
  by (auto simp: Save_ServerInfo_def storm_Save_def contents_def
      split: if_splits prod.splits option.splits dest: begin_tx_frame)

lemma Save_ServerInfo_wf:
  "Save_ServerInfo v d = (e, d') \<Longrightarrow> wf_DB d \<Longrightarrow> wf_DB d'"
  by (auto simp: Save_ServerInfo_def storm_Save_def contents_def wf_DB_def put_distinct
      split: if_splits prod.splits option.splits dest!: begin_tx_frame)

lemma Save_Client_ok:
  "Save_Client v d = (None, d') \<Longrightarrow>
     Client_bucket d' = put Client.ID v (Client_bucket d) \<and> Client.ID v \<noteq> []"
  by (auto simp: Save_Client_def storm_Save_def contents_def
      split: if_splits prod.splits option.splits dest: begin_tx_frame)

lemma Save_Client_wf:
  "Save_Client v d = (e, d') \<Longrightarrow> wf_DB d \<Longrightarrow> wf_DB d'"
  by (auto simp: Save_Client_def storm_Save_def contents_def wf_DB_def put_distinct
      split: if_splits prod.splits option.splits dest!: begin_tx_frame)

lemma Save_Subscription_ok:
  "Save_Subscription v d = (None, d') \<Longrightarrow>
     Subscription_bucket d' = put Subscription.ID v (Subscription_bucket d) \<and> Subscription.ID v \<noteq> []"
  by (auto simp: Save_Subscription_def storm_Save_def contents_def
      split: if_splits prod.splits option.splits dest: begin_tx_frame)

lemma Save_Subscription_wf:
  "Save_Subscription v d = (e, d') \<Longrightarrow> wf_DB d \<Longrightarrow> wf_DB d'"
  by (auto simp: Save_Subscription_def storm_Save_def contents_def wf_DB_def put_distinct
      split: if_splits prod.splits option.splits dest!: begin_tx_frame)

lemma Save_Message_ok:
  "Save_Message v d = (None, d') \<Longrightarrow>
     Message_bucket d' = put Message.ID v (Message_bucket d) \<and> Message.ID v \<noteq> []"
  by (auto simp: Save_Message_def storm_Save_def contents_def
      split: if_splits prod.splits option.splits dest: begin_tx_frame)

lemma Save_Message_wf:
  "Save_Message v d = (e, d') \<Longrightarrow> wf_DB d \<Longrightarrow> wf_DB d'"
  by (auto simp: Save_Message_def storm_Save_def contents_def wf_DB_def put_distinct
      split: if_splits prod.splits option.splits dest!: begin_tx_frame)

lemma DeleteStruct_Client_ok:
  "DeleteStruct_Client v d = (None, d') \<Longrightarrow>
     Client.ID v \<in> set (map Client.ID (Client_bucket d)) \<and>
     Client_bucket d' = filter (\<lambda>r. Client.ID r \<noteq> Client.ID v) (Client_bucket d) \<and>
     ServerInfo_bucket d' = ServerInfo_bucket d \<and>
     Subscription_bucket d' = Subscription_bucket d \<and>
     Message_bucket d' = Message_bucket d \<and>
     opened d' = opened d"
  by (auto simp: DeleteStruct_Client_def storm_DeleteStruct_def contents_def
      split: if_splits prod.splits option.splits dest!: begin_tx_frame)

lemma DeleteStruct_Client_err:
  "DeleteStruct_Client v d = (Some e, d') \<Longrightarrow>
     contents d' = contents d \<and> opened d' = opened d \<and> e \<noteq> ErrDBNotOpen"
  by (auto simp: DeleteStruct_Client_def storm_DeleteStruct_def
      split: if_splits prod.splits option.splits dest!: begin_tx_frame)

lemma DeleteStruct_Client_absent:
  "Client.ID v \<notin> set (map Client.ID (Client_bucket d)) \<Longrightarrow> DeleteStruct_Client v d = (e, d') \<Longrightarrow>
     e \<noteq> None \<and> contents d' = contents d \<and> opened d' = opened d \<and>
     (opened d \<and> faults d = [] \<longrightarrow> e = Some ErrNotFound)"
  by (auto simp: DeleteStruct_Client_def storm_DeleteStruct_def contents_def
      split: if_splits prod.splits option.splits dest!: begin_tx_frame)

lemma DeleteStruct_Client_wf:
  "DeleteStruct_Client v d = (e, d') \<Longrightarrow> wf_DB d \<Longrightarrow> wf_DB d'"
  by (auto simp: DeleteStruct_Client_def storm_DeleteStruct_def contents_def wf_DB_def
      distinct_map_filter split: if_splits prod.splits option.splits dest!: begin_tx_frame)

lemma Find_Client_res:
  "Find_Client f k [] d = (e, v, d') \<Longrightarrow>
     contents d' = contents d \<and> opened d' = opened d \<and> e \<noteq> Some ErrDBNotOpen \<and>
     (if e = None \<or> e = Some ErrNotFound then v = filter (\<lambda>r. f r = k) (Client_bucket d)
      else v = [])"
  by (auto simp: Find_Client_def storm_Find_def contents_def
      split: if_splits prod.splits option.splits list.splits dest!: begin_tx_frame)

lemma DeleteStruct_Subscription_ok:
  "DeleteStruct_Subscription v d = (None, d') \<Longrightarrow>
     Subscription.ID v \<in> set (map Subscription.ID (Subscription_bucket d)) \<and>
     Subscription_bucket d' = filter (\<lambda>r. Subscription.ID r \<noteq> Subscription.ID v) (Subscription_bucket d) \<and>
     ServerInfo_bucket d' = ServerInfo_bucket d \<and>
     Client_bucket d' = Client_bucket d \<and>
     Message_bucket d' = Message_bucket d \<and>
     opened d' = opened d"
  by (auto simp: DeleteStruct_Subscription_def storm_DeleteStruct_def contents_def
      split: if_splits prod.splits option.splits dest!: begin_tx_frame)

lemma DeleteStruct_Subscription_err:
  "DeleteStruct_Subscription v d = (Some e, d') \<Longrightarrow>
     contents d' = contents d \<and> opened d' = opened d \<and> e \<noteq> ErrDBNotOpen"
  by (auto simp: DeleteStruct_Subscription_def storm_DeleteStruct_def
      split: if_splits prod.splits option.splits dest!: begin_tx_frame)

lemma DeleteStruct_Subscription_absent:
  "Subscription.ID v \<notin> set (map Subscription.ID (Subscription_bucket d)) \<Longrightarrow> DeleteStruct_Subscription v d = (e, d') \<Longrightarrow>
     e \<noteq> None \<and> contents d' = contents d \<and> opened d' = opened d \<and>
     (opened d \<and> faults d = [] \<longrightarrow> e = Some ErrNotFound)"
  by (auto simp: DeleteStruct_Subscription_def storm_DeleteStruct_def contents_def
      split: if_splits prod.splits option.splits dest!: begin_tx_frame)

lemma DeleteStruct_Subscription_wf:
  "DeleteStruct_Subscription v d = (e, d') \<Longrightarrow> wf_DB d \<Longrightarrow> wf_DB d'"
  by (auto simp: DeleteStruct_Subscription_def storm_DeleteStruct_def contents_def wf_DB_def
      distinct_map_filter split: if_splits prod.splits option.splits dest!: begin_tx_frame)

lemma Find_Subscription_res:
  "Find_Subscription f k [] d = (e, v, d') \<Longrightarrow>
     contents d' = contents d \<and> opened d' = opened d \<and> e \<noteq> Some ErrDBNotOpen \<and>
     (if e = None \<or> e = Some ErrNotFound then v = filter (\<lambda>r. f r = k) (Subscription_bucket d)
      else v = [])"
  by (auto simp: Find_Subscription_def storm_Find_def contents_def
      split: if_splits prod.splits option.splits list.splits dest!: begin_tx_frame)

lemma DeleteStruct_Message_ok:
  "DeleteStruct_Message v d = (None, d') \<Longrightarrow>
     Message.ID v \<in> set (map Message.ID (Message_bucket d)) \<and>
     Message_bucket d' = filter (\<lambda>r. Message.ID r \<noteq> Message.ID v) (Message_bucket d) \<and>
     ServerInfo_bucket d' = ServerInfo_bucket d \<and>
     Client_bucket d' = Client_bucket d \<and>
     Subscription_bucket d' = Subscription_bucket d \<and>
     opened d' = opened d"
  by (auto simp: DeleteStruct_Message_def storm_DeleteStruct_def contents_def
      split: if_splits prod.splits option.splits dest!: begin_tx_frame)

lemma DeleteStruct_Message_err:
  "DeleteStruct_Message v d = (Some e, d') \<Longrightarrow>
     contents d' = contents d \<and> opened d' = opened d \<and> e \<noteq> ErrDBNotOpen"
  by (auto simp: DeleteStruct_Message_def storm_DeleteStruct_def
      split: if_splits prod.splits option.splits dest!: begin_tx_frame)

lemma DeleteStruct_Message_absent:
  "Message.ID v \<notin> set (map Message.ID (Message_bucket d)) \<Longrightarrow> DeleteStruct_Message v d = (e, d') \<Longrightarrow>
     e \<noteq> None \<and> contents d' = contents d \<and> opened d' = opened d \<and>
     (opened d \<and> faults d = [] \<longrightarrow> e = Some ErrNotFound)"
  by (auto simp: DeleteStruct_Message_def storm_DeleteStruct_def contents_def
      split: if_splits prod.splits option.splits dest!: begin_tx_frame)

lemma DeleteStruct_Message_wf:
  "DeleteStruct_Message v d = (e, d') \<Longrightarrow> wf_DB d \<Longrightarrow> wf_DB d'"
  by (auto simp: DeleteStruct_Message_def storm_DeleteStruct_def contents_def wf_DB_def
      distinct_map_filter split: if_splits prod.splits option.splits dest!: begin_tx_frame)

lemma Find_Message_res:
  "Find_Message f k [] d = (e, v, d') \<Longrightarrow>
     contents d' = contents d \<and> opened d' = opened d \<and> e \<noteq> Some ErrDBNotOpen \<and>
     (if e = None \<or> e = Some ErrNotFound then v = filter (\<lambda>r. f r = k) (Message_bucket d)
      else v = [])"
  by (auto simp: Find_Message_def storm_Find_def contents_def
      split: if_splits prod.splits option.splits list.splits dest!: begin_tx_frame)

lemma loop_ok:
  "ClearExpiredInflight_loop t v d = (None, d') \<Longrightarrow>
     Message_bucket d' = filter (\<lambda>m. ID m \<notin> set (map ID (filter (stale t) v))) (Message_bucket d) \<and>
     ServerInfo_bucket d' = ServerInfo_bucket d \<and> Client_bucket d' = Client_bucket d \<and>
     Subscription_bucket d' = Subscription_bucket d \<and> opened d' = opened d"
proof (induction v arbitrary: d)
  case Nil
  then show ?case by simp
next
  case (Cons m v)
  show ?case
  proof (cases "stale t m")
    case False
    with Cons show ?thesis by auto
  next
    case True
    with Cons.prems obtain d1 where
      del: "DeleteStruct_Message (zero_Message\<lparr>ID := ID m\<rparr>) d = (None, d1)" and
      rest: "ClearExpiredInflight_loop t v d1 = (None, d')"
      by (auto split: prod.splits option.splits)
    from DeleteStruct_Message_ok [OF del] Cons.IH [OF rest] True
    show ?thesis by (auto intro: filter_cong)
  qed
qed

lemma loop_append:
  "ClearExpiredInflight_loop t (pre @ rest) d =
     (case ClearExpiredInflight_loop t pre d of
        (Some e, d1) \<Rightarrow> (Some e, d1)
      | (None, d1) \<Rightarrow> ClearExpiredInflight_loop t rest d1)"
  by (induction pre arbitrary: d) (auto split: prod.splits option.splits)

lemma distinct_key_member:
  "distinct (map key b) \<Longrightarrow> m \<in> set b \<Longrightarrow> x \<in> set b \<Longrightarrow> key x = key m \<Longrightarrow> x = m"
  by (meson distinct_map inj_onD)

lemma swept_bucket:
  assumes "distinct (map ID b)"
  shows "filter (\<lambda>m. ID m \<notin> set (map ID (filter (stale t) (filter (\<lambda>r. T r = k) b)))) b =
         filter (\<lambda>m. \<not> (T m = k \<and> stale t m)) b"
proof (rule filter_cong [OF refl])
  fix m assume m: "m \<in> set b"
  show "(ID m \<notin> set (map ID (filter (stale t) (filter (\<lambda>r. T r = k) b)))) =
        (\<not> (T m = k \<and> stale t m))"
  proof -
    have "ID m \<in> set (map ID (filter (stale t) (filter (\<lambda>r. T r = k) b))) \<longleftrightarrow>
          (\<exists>x \<in> set b. T x = k \<and> stale t x \<and> ID x = ID m)"
      by (auto simp: image_iff)
    also have "\<dots> \<longleftrightarrow> T m = k \<and> stale t m"
      using distinct_key_member [OF assms m] m by blast
    finally show ?thesis by simp
  qed
qed

subsection \<open>The invariant, and the sweep on a healthy engine\<close>

text \<open>
  A new database satisfies \<open>wf_DB\<close>, and the engine's calls keep it (the lemmas
  \<open>Save_Message_wf\<close>, \<open>DeleteStruct_Message_wf\<close> and their like above), as does the
  sweep. On an opened store with no failure pending the sweep returns no error.
\<close>

lemma wf_DB_empty: "wf_DB empty_DB"
  by (simp add: wf_DB_def empty_DB_def)

lemma loop_wf:
  "ClearExpiredInflight_loop t v d = (e, d') \<Longrightarrow> wf_DB d \<Longrightarrow> wf_DB d'"
proof (induction v arbitrary: d)
  case Nil
  then show ?case by simp
next
  case (Cons m v)
  show ?case
  proof (cases "stale t m")
    case False
    with Cons show ?thesis by simp
  next
    case True
    obtain e1 d1 where del: "DeleteStruct_Message (zero_Message\<lparr>ID := ID m\<rparr>) d = (e1, d1)"
      by (cases "DeleteStruct_Message (zero_Message\<lparr>ID := ID m\<rparr>) d") auto
    from DeleteStruct_Message_wf [OF del Cons.prems(2)] have wf1: "wf_DB d1" .
    show ?thesis
    proof (cases e1)
      case None
      with Cons.prems(1) True del have "ClearExpiredInflight_loop t v d1 = (e, d')"
        by simp
      from Cons.IH [OF this wf1] show ?thesis .
    next
      case (Some err)
      with Cons.prems(1) True del wf1 show ?thesis by simp
    qed
  qed
qed

lemma DeleteStruct_Message_healthy:
  "opened d \<Longrightarrow> faults d = [] \<Longrightarrow> ID v \<in> set (map ID (Message_bucket d)) \<Longrightarrow>
     DeleteStruct_Message v d =
       (None, d\<lparr>Message_bucket := filter (\<lambda>r. ID r \<noteq> ID v) (Message_bucket d)\<rparr>)"
  by (simp add: DeleteStruct_Message_def storm_DeleteStruct_def begin_tx_healthy)

lemma loop_healthy:
  "opened d \<Longrightarrow> faults d = [] \<Longrightarrow> distinct (map ID v) \<Longrightarrow>
     set (map ID (filter (stale t) v)) \<subseteq> set (map ID (Message_bucket d)) \<Longrightarrow>
     fst (ClearExpiredInflight_loop t v d) = None"
proof (induction v arbitrary: d)
  case Nil
  then show ?case by simp
next
  case (Cons m v)
  show ?case
  proof (cases "stale t m")
    case False
    with Cons show ?thesis by simp
  next
    case True
    let ?d1 = "d\<lparr>Message_bucket := filter (\<lambda>r. ID r \<noteq> ID m) (Message_bucket d)\<rparr>"
    from True Cons.prems(4) have "ID m \<in> set (map ID (Message_bucket d))"
      by simp
    then have del: "DeleteStruct_Message (zero_Message\<lparr>ID := ID m\<rparr>) d = (None, ?d1)"
      using DeleteStruct_Message_healthy [OF Cons.prems(1,2), of "zero_Message\<lparr>ID := ID m\<rparr>"]
      by simp
    from Cons.prems(3) have "ID m \<notin> set (map ID v)" and dv: "distinct (map ID v)"
      by simp_all
    have "set (map ID (filter (stale t) v)) \<subseteq> set (map ID (Message_bucket ?d1))"
    proof
      fix i assume i: "i \<in> set (map ID (filter (stale t) v))"
      then have "i \<in> set (map ID v)" by auto
      with \<open>ID m \<notin> set (map ID v)\<close> have ne: "i \<noteq> ID m" by blast
      from i Cons.prems(4) True have "i \<in> set (map ID (Message_bucket d))" by auto
      then obtain x where "x \<in> set (Message_bucket d)" "ID x = i" by auto
      with ne have "x \<in> set (filter (\<lambda>r. ID r \<noteq> ID m) (Message_bucket d))" by simp
      with \<open>ID x = i\<close> show "i \<in> set (map ID (Message_bucket ?d1))" by force
    qed
    from Cons.IH [OF _ _ dv this] Cons.prems(1,2) True del show ?thesis by simp
  qed
qed

lemma ClearExpiredInflight_healthy:
  assumes "db s = Some d" and "wf_DB d" and "opened d" and "faults d = []"
  shows "fst (ClearExpiredInflight expiry s) = None"
proof -
  let ?v = "filter (\<lambda>r. T r = KInflight) (Message_bucket d)"
  from assms(2) have "distinct (map ID (Message_bucket d))"
    by (simp add: wf_DB_def)
  then have dv: "distinct (map ID ?v)"
    by (rule distinct_map_filter)
  have sub: "set (map ID (filter (stale expiry) ?v)) \<subseteq> set (map ID (Message_bucket d))"
    by auto
  have find: "Find_Message T KInflight [] d =
      (if ?v = [] then (Some ErrNotFound, [], d) else (None, ?v, d))"
    using assms(3,4)
    by (simp add: Find_Message_def storm_Find_def begin_tx_healthy split: list.splits)
  from loop_healthy [OF assms(3,4) dv sub] have "fst (ClearExpiredInflight_loop expiry ?v d) = None" .
  with assms(1) find show ?thesis
    by (auto simp: ClearExpiredInflight_def split: prod.splits)
qed

lemma ClearExpiredInflight_wf:
  assumes "db s = Some d" and "wf_DB d"
  shows "\<exists>d'. db (state_after (ClearExpiredInflight expiry) s) = Some d' \<and> wf_DB d'"
proof -
  obtain e v d0 where find: "Find_Message T KInflight [] d = (e, v, d0)"
    by (cases "Find_Message T KInflight [] d") auto
  from Find_Message_res [OF find] assms(2) have wf0: "wf_DB d0"
    by (simp add: contents_def wf_DB_def)
  obtain e1 d1 where loop: "ClearExpiredInflight_loop expiry v d0 = (e1, d1)"
    by (cases "ClearExpiredInflight_loop expiry v d0") auto
  from loop_wf [OF loop wf0] have "wf_DB d1" .
  with assms(1) find loop wf0 show ?thesis
    by (auto simp: ClearExpiredInflight_def state_after_def)
qed

subsection \<open>The sweep removes the stale inflight messages and nothing else\<close>

text \<open>
  C1. On an opened store whose buckets hold no identifier twice, when
  \<open>ClearExpiredInflight expiry\<close> returns no error, the bucket of messages is left with
  exactly the records that are not stale inflight messages: every record of kind
  inflight whose created timestamp is below \<open>expiry\<close> (as signed 64-bit integers) or is
  0 is gone, and every inflight record created at or after \<open>expiry\<close> with a created
  timestamp other than 0 is kept, as is every record of another kind. With created
  timestamps 0, 100, 200 and 300 and \<open>expiry = 200\<close> the survivors are those created at
  200 and 300.
\<close>

theorem ClearExpiredInflight_sweeps:
  assumes "db s = Some d" and "wf_DB d"
    and "ClearExpiredInflight expiry s = (None, s')"
  shows "\<exists>d'. db s' = Some d' \<and>
           Message_bucket d' =
             filter (\<lambda>m. \<not> (T m = KInflight \<and> (Created m <s expiry \<or> Created m = 0)))
               (Message_bucket d) \<and>
           ServerInfo_bucket d' = ServerInfo_bucket d \<and> Client_bucket d' = Client_bucket d \<and>
           Subscription_bucket d' = Subscription_bucket d"
proof -
  obtain e v d0 where find: "Find_Message T KInflight [] d = (e, v, d0)"
    by (cases "Find_Message T KInflight [] d") auto
  from assms(1,3) find have e: "e = None \<or> e = Some ErrNotFound"
    by (auto simp: ClearExpiredInflight_def split: if_splits)
  with Find_Message_res [OF find] have
    v: "v = filter (\<lambda>r. T r = KInflight) (Message_bucket d)" and c0: "contents d0 = contents d"
    by auto
  obtain d1 where loop: "ClearExpiredInflight_loop expiry v d0 = (None, d1)"
    and s': "s' = s\<lparr>db := Some d1\<rparr>"
    using assms(1,3) find e by (auto simp: ClearExpiredInflight_def split: if_splits prod.splits)
  from assms(2) have dist: "distinct (map ID (Message_bucket d))"
    by (simp add: wf_DB_def)
  from loop_ok [OF loop] c0 v swept_bucket [OF dist, of expiry KInflight]
  have "Message_bucket d1 = filter (\<lambda>m. \<not> (T m = KInflight \<and> stale expiry m)) (Message_bucket d)"
    and "ServerInfo_bucket d1 = ServerInfo_bucket d" and "Client_bucket d1 = Client_bucket d"
    and "Subscription_bucket d1 = Subscription_bucket d"
    by (simp_all add: contents_def)
  with s' show ?thesis by (simp add: stale_def)
qed

theorem ClearExpiredInflight_sweeps_witness:
  "db (opened_on sweep_DB) = Some sweep_DB \<and> wf_DB sweep_DB \<and>
   fst (ClearExpiredInflight 200 (opened_on sweep_DB)) = None \<and>
   Message_bucket (the (db (snd (ClearExpiredInflight 200 (opened_on sweep_DB))))) =
     [retained ''r'' ''p'', inflight ''c'' 200, inflight ''d'' 300]"
proof -
  have a: "db (opened_on sweep_DB) = Some sweep_DB"
    by (simp add: opened_on_def Open_def)
  have b: "wf_DB sweep_DB"
    by (simp add: wf_DB_def fixture_defs)
  have c: "fst (ClearExpiredInflight 200 (opened_on sweep_DB)) = None"
    by code_simp
  then have c': "ClearExpiredInflight 200 (opened_on sweep_DB) =
      (None, snd (ClearExpiredInflight 200 (opened_on sweep_DB)))"
    by (metis prod.collapse)
  from ClearExpiredInflight_sweeps [OF a b c'] obtain d' where
    "db (snd (ClearExpiredInflight 200 (opened_on sweep_DB))) = Some d'"
    "Message_bucket d' = filter (\<lambda>m. \<not> (T m = KInflight \<and> (Created m <s 200 \<or> Created m = 0)))
               (Message_bucket sweep_DB)"
    by blast
  with a b c show ?thesis
    by (simp add: fixture_defs)
qed

subsection \<open>Saving under an identifier already stored overwrites\<close>

lemma Save_Message_twice:
  assumes "wf_DB d" and "Message.ID v1 = Message.ID v2"
    and "Save_Message v1 d = (None, d1)" and "Save_Message v2 d1 = (None, d2)"
  shows "filter (\<lambda>r. Message.ID r = Message.ID v2) (Message_bucket d2) = [v2] \<and> wf_DB d2"
proof -
  from Save_Message_wf [OF assms(3) assms(1)] have wf1: "wf_DB d1" .
  then have dist: "distinct (map Message.ID (Message_bucket d1))"
    by (simp add: wf_DB_def)
  from Save_Message_ok [OF assms(4)] have "Message_bucket d2 = put Message.ID v2 (Message_bucket d1)"
    by simp
  with put_filter_same [OF dist, of v2] Save_Message_wf [OF assms(4) wf1]
  show ?thesis by simp
qed

lemma Save_Client_twice:
  assumes "wf_DB d" and "Client.ID v1 = Client.ID v2"
    and "Save_Client v1 d = (None, d1)" and "Save_Client v2 d1 = (None, d2)"
  shows "filter (\<lambda>r. Client.ID r = Client.ID v2) (Client_bucket d2) = [v2] \<and> wf_DB d2"
proof -
  from Save_Client_wf [OF assms(3) assms(1)] have wf1: "wf_DB d1" .
  then have dist: "distinct (map Client.ID (Client_bucket d1))"
    by (simp add: wf_DB_def)
  from Save_Client_ok [OF assms(4)] have "Client_bucket d2 = put Client.ID v2 (Client_bucket d1)"
    by simp
  with put_filter_same [OF dist, of v2] Save_Client_wf [OF assms(4) wf1]
  show ?thesis by simp
qed

lemma Save_Subscription_twice:
  assumes "wf_DB d" and "Subscription.ID v1 = Subscription.ID v2"
    and "Save_Subscription v1 d = (None, d1)" and "Save_Subscription v2 d1 = (None, d2)"
  shows "filter (\<lambda>r. Subscription.ID r = Subscription.ID v2) (Subscription_bucket d2) = [v2] \<and> wf_DB d2"
proof -
  from Save_Subscription_wf [OF assms(3) assms(1)] have wf1: "wf_DB d1" .
  then have dist: "distinct (map Subscription.ID (Subscription_bucket d1))"
    by (simp add: wf_DB_def)
  from Save_Subscription_ok [OF assms(4)] have "Subscription_bucket d2 = put Subscription.ID v2 (Subscription_bucket d1)"
    by simp
  with put_filter_same [OF dist, of v2] Save_Subscription_wf [OF assms(4) wf1]
  show ?thesis by simp
qed

lemma Save_ServerInfo_twice:
  assumes "wf_DB d" and "ServerInfo.ID v1 = ServerInfo.ID v2"
    and "Save_ServerInfo v1 d = (None, d1)" and "Save_ServerInfo v2 d1 = (None, d2)"
  shows "filter (\<lambda>r. ServerInfo.ID r = ServerInfo.ID v2) (ServerInfo_bucket d2) = [v2] \<and> wf_DB d2"
proof -
  from Save_ServerInfo_wf [OF assms(3) assms(1)] have wf1: "wf_DB d1" .
  then have dist: "distinct (map ServerInfo.ID (ServerInfo_bucket d1))"
    by (simp add: wf_DB_def)
  from Save_ServerInfo_ok [OF assms(4)] have "ServerInfo_bucket d2 = put ServerInfo.ID v2 (ServerInfo_bucket d1)"
    by simp
  with put_filter_same [OF dist, of v2] Save_ServerInfo_wf [OF assms(4) wf1]
  show ?thesis by simp
qed

lemma WriteInflight_twice:
  assumes "db s = Some d" and "wf_DB d" and "Message.ID v1 = Message.ID v2"
    and "fst (WriteInflight v1 s) = None"
    and "fst (WriteInflight v2 (state_after (WriteInflight v1) s)) = None"
  shows "\<exists>d2. db (state_after (WriteInflight v2) (state_after (WriteInflight v1) s)) = Some d2 \<and>
           filter (\<lambda>x. Message.ID x = Message.ID v2) (Message_bucket d2) = [v2] \<and> wf_DB d2"
proof -
  obtain e1 d1 where s1: "Save_Message v1 d = (e1, d1)"
    by (cases "Save_Message v1 d") auto
  with assms(1,4) have e1: "e1 = None" and db1: "db (state_after (WriteInflight v1) s) = Some d1"
    by (auto simp: WriteInflight_def state_after_def split: option.splits)
  obtain e2 d2 where s2: "Save_Message v2 d1 = (e2, d2)"
    by (cases "Save_Message v2 d1") auto
  with db1 assms(5) have e2: "e2 = None"
    and db2: "db (state_after (WriteInflight v2) (state_after (WriteInflight v1) s)) = Some d2"
    by (auto simp: WriteInflight_def state_after_def [of "WriteInflight v2"] split: option.splits)
  from Save_Message_twice [OF assms(2,3) s1 [unfolded e1] s2 [unfolded e2]] db2
  show ?thesis by simp
qed

lemma WriteRetained_twice:
  assumes "db s = Some d" and "wf_DB d" and "Message.ID v1 = Message.ID v2"
    and "fst (WriteRetained v1 s) = None"
    and "fst (WriteRetained v2 (state_after (WriteRetained v1) s)) = None"
  shows "\<exists>d2. db (state_after (WriteRetained v2) (state_after (WriteRetained v1) s)) = Some d2 \<and>
           filter (\<lambda>x. Message.ID x = Message.ID v2) (Message_bucket d2) = [v2] \<and> wf_DB d2"
proof -
  obtain e1 d1 where s1: "Save_Message v1 d = (e1, d1)"
    by (cases "Save_Message v1 d") auto
  with assms(1,4) have e1: "e1 = None" and db1: "db (state_after (WriteRetained v1) s) = Some d1"
    by (auto simp: WriteRetained_def state_after_def split: option.splits)
  obtain e2 d2 where s2: "Save_Message v2 d1 = (e2, d2)"
    by (cases "Save_Message v2 d1") auto
  with db1 assms(5) have e2: "e2 = None"
    and db2: "db (state_after (WriteRetained v2) (state_after (WriteRetained v1) s)) = Some d2"
    by (auto simp: WriteRetained_def state_after_def [of "WriteRetained v2"] split: option.splits)
  from Save_Message_twice [OF assms(2,3) s1 [unfolded e1] s2 [unfolded e2]] db2
  show ?thesis by simp
qed

lemma WriteClient_twice:
  assumes "db s = Some d" and "wf_DB d" and "Client.ID v1 = Client.ID v2"
    and "fst (WriteClient v1 s) = None"
    and "fst (WriteClient v2 (state_after (WriteClient v1) s)) = None"
  shows "\<exists>d2. db (state_after (WriteClient v2) (state_after (WriteClient v1) s)) = Some d2 \<and>
           filter (\<lambda>x. Client.ID x = Client.ID v2) (Client_bucket d2) = [v2] \<and> wf_DB d2"
proof -
  obtain e1 d1 where s1: "Save_Client v1 d = (e1, d1)"
    by (cases "Save_Client v1 d") auto
  with assms(1,4) have e1: "e1 = None" and db1: "db (state_after (WriteClient v1) s) = Some d1"
    by (auto simp: WriteClient_def state_after_def split: option.splits)
  obtain e2 d2 where s2: "Save_Client v2 d1 = (e2, d2)"
    by (cases "Save_Client v2 d1") auto
  with db1 assms(5) have e2: "e2 = None"
    and db2: "db (state_after (WriteClient v2) (state_after (WriteClient v1) s)) = Some d2"
    by (auto simp: WriteClient_def state_after_def [of "WriteClient v2"] split: option.splits)
  from Save_Client_twice [OF assms(2,3) s1 [unfolded e1] s2 [unfolded e2]] db2
  show ?thesis by simp
qed

lemma WriteSubscription_twice:
  assumes "db s = Some d" and "wf_DB d" and "Subscription.ID v1 = Subscription.ID v2"
    and "fst (WriteSubscription v1 s) = None"
    and "fst (WriteSubscription v2 (state_after (WriteSubscription v1) s)) = None"
  shows "\<exists>d2. db (state_after (WriteSubscription v2) (state_after (WriteSubscription v1) s)) = Some d2 \<and>
           filter (\<lambda>x. Subscription.ID x = Subscription.ID v2) (Subscription_bucket d2) = [v2] \<and> wf_DB d2"
proof -
  obtain e1 d1 where s1: "Save_Subscription v1 d = (e1, d1)"
    by (cases "Save_Subscription v1 d") auto
  with assms(1,4) have e1: "e1 = None" and db1: "db (state_after (WriteSubscription v1) s) = Some d1"
    by (auto simp: WriteSubscription_def state_after_def split: option.splits)
  obtain e2 d2 where s2: "Save_Subscription v2 d1 = (e2, d2)"
    by (cases "Save_Subscription v2 d1") auto
  with db1 assms(5) have e2: "e2 = None"
    and db2: "db (state_after (WriteSubscription v2) (state_after (WriteSubscription v1) s)) = Some d2"
    by (auto simp: WriteSubscription_def state_after_def [of "WriteSubscription v2"] split: option.splits)
  from Save_Subscription_twice [OF assms(2,3) s1 [unfolded e1] s2 [unfolded e2]] db2
  show ?thesis by simp
qed

lemma WriteServerInfo_twice:
  assumes "db s = Some d" and "wf_DB d" and "ServerInfo.ID v1 = ServerInfo.ID v2"
    and "fst (WriteServerInfo v1 s) = None"
    and "fst (WriteServerInfo v2 (state_after (WriteServerInfo v1) s)) = None"
  shows "\<exists>d2. db (state_after (WriteServerInfo v2) (state_after (WriteServerInfo v1) s)) = Some d2 \<and>
           filter (\<lambda>x. ServerInfo.ID x = ServerInfo.ID v2) (ServerInfo_bucket d2) = [v2] \<and> wf_DB d2"
proof -
  obtain e1 d1 where s1: "Save_ServerInfo v1 d = (e1, d1)"
    by (cases "Save_ServerInfo v1 d") auto
  with assms(1,4) have e1: "e1 = None" and db1: "db (state_after (WriteServerInfo v1) s) = Some d1"
    by (auto simp: WriteServerInfo_def state_after_def split: option.splits)
  obtain e2 d2 where s2: "Save_ServerInfo v2 d1 = (e2, d2)"
    by (cases "Save_ServerInfo v2 d1") auto
  with db1 assms(5) have e2: "e2 = None"
    and db2: "db (state_after (WriteServerInfo v2) (state_after (WriteServerInfo v1) s)) = Some d2"
    by (auto simp: WriteServerInfo_def state_after_def [of "WriteServerInfo v2"] split: option.splits)
  from Save_ServerInfo_twice [OF assms(2,3) s1 [unfolded e1] s2 [unfolded e2]] db2
  show ?thesis by simp
qed

text \<open>
  C2. On an opened store whose buckets hold no identifier twice, two successful writes of
  records with the same identifier, one after the other, leave exactly one record under
  that identifier, the second one, and no bucket holds an identifier twice afterwards.
  This holds for each of the five writes.
\<close>

theorem Save_twice_overwrites:
  assumes "db s = Some d" and "wf_DB d"
  shows "(Message.ID m1 = Message.ID m2 \<and> fst (WriteInflight m1 s) = None \<and>
          fst (WriteInflight m2 (state_after (WriteInflight m1) s)) = None \<longrightarrow>
            (\<exists>d2. db (state_after (WriteInflight m2) (state_after (WriteInflight m1) s)) = Some d2 \<and>
               filter (\<lambda>x. Message.ID x = Message.ID m2) (Message_bucket d2) = [m2] \<and> wf_DB d2)) \<and>
         (Message.ID r1 = Message.ID r2 \<and> fst (WriteRetained r1 s) = None \<and>
          fst (WriteRetained r2 (state_after (WriteRetained r1) s)) = None \<longrightarrow>
            (\<exists>d2. db (state_after (WriteRetained r2) (state_after (WriteRetained r1) s)) = Some d2 \<and>
               filter (\<lambda>x. Message.ID x = Message.ID r2) (Message_bucket d2) = [r2] \<and> wf_DB d2)) \<and>
         (Client.ID c1 = Client.ID c2 \<and> fst (WriteClient c1 s) = None \<and>
          fst (WriteClient c2 (state_after (WriteClient c1) s)) = None \<longrightarrow>
            (\<exists>d2. db (state_after (WriteClient c2) (state_after (WriteClient c1) s)) = Some d2 \<and>
               filter (\<lambda>x. Client.ID x = Client.ID c2) (Client_bucket d2) = [c2] \<and> wf_DB d2)) \<and>
         (Subscription.ID u1 = Subscription.ID u2 \<and> fst (WriteSubscription u1 s) = None \<and>
          fst (WriteSubscription u2 (state_after (WriteSubscription u1) s)) = None \<longrightarrow>
            (\<exists>d2. db (state_after (WriteSubscription u2) (state_after (WriteSubscription u1) s)) = Some d2 \<and>
               filter (\<lambda>x. Subscription.ID x = Subscription.ID u2) (Subscription_bucket d2) = [u2] \<and> wf_DB d2)) \<and>
         (ServerInfo.ID i1 = ServerInfo.ID i2 \<and> fst (WriteServerInfo i1 s) = None \<and>
          fst (WriteServerInfo i2 (state_after (WriteServerInfo i1) s)) = None \<longrightarrow>
            (\<exists>d2. db (state_after (WriteServerInfo i2) (state_after (WriteServerInfo i1) s)) = Some d2 \<and>
               filter (\<lambda>x. ServerInfo.ID x = ServerInfo.ID i2) (ServerInfo_bucket d2) = [i2] \<and> wf_DB d2))"
  using WriteInflight_twice [OF assms] WriteRetained_twice [OF assms] WriteClient_twice [OF assms] WriteSubscription_twice [OF assms] WriteServerInfo_twice [OF assms]
  by blast

theorem Save_twice_overwrites_witness:
  "db (opened_on sweep_DB) = Some sweep_DB \<and> wf_DB sweep_DB \<and>
   fst (WriteInflight (inflight ''b'' 7) (opened_on sweep_DB)) = None \<and>
   fst (WriteInflight (inflight ''b'' 8)
      (state_after (WriteInflight (inflight ''b'' 7)) (opened_on sweep_DB))) = None \<and>
   filter (\<lambda>x. ID x = ''b'')
     (Message_bucket (the (db (state_after (WriteInflight (inflight ''b'' 8))
        (state_after (WriteInflight (inflight ''b'' 7)) (opened_on sweep_DB)))))) =
     [inflight ''b'' 8] \<and>
   filter (\<lambda>x. ID x = ''t'')
     (Message_bucket (the (db (state_after (WriteRetained (retained ''t'' ''y''))
        (state_after (WriteRetained (retained ''t'' ''x'')) (opened_on sweep_DB)))))) =
     [retained ''t'' ''y''] \<and>
   filter (\<lambda>x. Client.ID x = Client.ID (client ''c'' ''y''))
     (Client_bucket (the (db (state_after (WriteClient (client ''c'' ''y''))
        (state_after (WriteClient (client ''c'' ''x'')) (opened_on sweep_DB)))))) =
     [client ''c'' ''y''] \<and>
   filter (\<lambda>x. Subscription.ID x = Subscription.ID (subscription ''s'' ''y''))
     (Subscription_bucket (the (db (state_after (WriteSubscription (subscription ''s'' ''y''))
        (state_after (WriteSubscription (subscription ''s'' ''x'')) (opened_on sweep_DB)))))) =
     [subscription ''s'' ''y''] \<and>
   filter (\<lambda>x. ServerInfo.ID x = ServerInfo.ID (server_info ''y''))
     (ServerInfo_bucket (the (db (state_after (WriteServerInfo (server_info ''y''))
        (state_after (WriteServerInfo (server_info ''x'')) (opened_on sweep_DB)))))) =
     [server_info ''y'']"
proof -
  have a: "db (opened_on sweep_DB) = Some sweep_DB"
    by (simp add: opened_on_def Open_def)
  have b: "wf_DB sweep_DB"
    by (simp add: wf_DB_def fixture_defs)
  have m: "fst (WriteInflight (inflight ''b'' 7) (opened_on sweep_DB)) = None"
    "fst (WriteInflight (inflight ''b'' 8)
      (state_after (WriteInflight (inflight ''b'' 7)) (opened_on sweep_DB))) = None"
    by code_simp+
  have r: "fst (WriteRetained (retained ''t'' ''x'') (opened_on sweep_DB)) = None"
    "fst (WriteRetained (retained ''t'' ''y'')
      (state_after (WriteRetained (retained ''t'' ''x'')) (opened_on sweep_DB))) = None"
    by code_simp+
  have c: "fst (WriteClient (client ''c'' ''x'') (opened_on sweep_DB)) = None"
    "fst (WriteClient (client ''c'' ''y'')
      (state_after (WriteClient (client ''c'' ''x'')) (opened_on sweep_DB))) = None"
    by code_simp+
  have u: "fst (WriteSubscription (subscription ''s'' ''x'') (opened_on sweep_DB)) = None"
    "fst (WriteSubscription (subscription ''s'' ''y'')
      (state_after (WriteSubscription (subscription ''s'' ''x'')) (opened_on sweep_DB))) = None"
    by code_simp+
  have i: "fst (WriteServerInfo (server_info ''x'') (opened_on sweep_DB)) = None"
    "fst (WriteServerInfo (server_info ''y'')
      (state_after (WriteServerInfo (server_info ''x'')) (opened_on sweep_DB))) = None"
    by code_simp+
  have ids: "ID (inflight ''b'' 7) = ID (inflight ''b'' 8)" "ID (inflight ''b'' 8) = ''b''"
    "ID (retained ''t'' ''x'') = ID (retained ''t'' ''y'')" "ID (retained ''t'' ''y'') = ''t''"
    "Client.ID (client ''c'' ''x'') = Client.ID (client ''c'' ''y'')"
    "Subscription.ID (subscription ''s'' ''x'') = Subscription.ID (subscription ''s'' ''y'')"
    "ServerInfo.ID (server_info ''x'') = ServerInfo.ID (server_info ''y'')"
    by (simp_all add: inflight_def retained_def client_def subscription_def server_info_def)
  note t = Save_twice_overwrites [OF a b,
      where ?m1.0 = "inflight ''b'' 7" and ?m2.0 = "inflight ''b'' 8"
        and ?r1.0 = "retained ''t'' ''x''" and ?r2.0 = "retained ''t'' ''y''"
        and ?c1.0 = "client ''c'' ''x''" and ?c2.0 = "client ''c'' ''y''"
        and ?u1.0 = "subscription ''s'' ''x''" and ?u2.0 = "subscription ''s'' ''y''"
        and ?i1.0 = "server_info ''x''" and ?i2.0 = "server_info ''y''"]
  from t m ids obtain dm where
    "db (state_after (WriteInflight (inflight ''b'' 8))
        (state_after (WriteInflight (inflight ''b'' 7)) (opened_on sweep_DB))) = Some dm"
    "filter (\<lambda>x. ID x = ''b'') (Message_bucket dm) = [inflight ''b'' 8]"
    by auto
  moreover from t r ids obtain dr where
    "db (state_after (WriteRetained (retained ''t'' ''y''))
        (state_after (WriteRetained (retained ''t'' ''x'')) (opened_on sweep_DB))) = Some dr"
    "filter (\<lambda>x. ID x = ''t'') (Message_bucket dr) = [retained ''t'' ''y'']"
    by auto
  moreover from t c ids obtain dc where
    "db (state_after (WriteClient (client ''c'' ''y''))
        (state_after (WriteClient (client ''c'' ''x'')) (opened_on sweep_DB))) = Some dc"
    "filter (\<lambda>x. Client.ID x = Client.ID (client ''c'' ''y'')) (Client_bucket dc) =
       [client ''c'' ''y'']"
    by auto
  moreover from t u ids obtain du where
    "db (state_after (WriteSubscription (subscription ''s'' ''y''))
        (state_after (WriteSubscription (subscription ''s'' ''x'')) (opened_on sweep_DB))) =
       Some du"
    "filter (\<lambda>x. Subscription.ID x = Subscription.ID (subscription ''s'' ''y''))
       (Subscription_bucket du) = [subscription ''s'' ''y'']"
    by auto
  moreover from t i ids obtain di where
    "db (state_after (WriteServerInfo (server_info ''y''))
        (state_after (WriteServerInfo (server_info ''x'')) (opened_on sweep_DB))) = Some di"
    "filter (\<lambda>x. ServerInfo.ID x = ServerInfo.ID (server_info ''y''))
       (ServerInfo_bucket di) = [server_info ''y'']"
    by auto
  ultimately show ?thesis using a b m by simp
qed

subsection \<open>Deleting an identifier that is not stored\<close>

lemma ReadSubscriptions_subset:
  "db s = Some d \<Longrightarrow> set (fst (fst (ReadSubscriptions s))) \<subseteq> set (Subscription_bucket d)"
  by (auto simp: ReadSubscriptions_def split: prod.splits if_splits dest!: Find_Subscription_res)

lemma ReadClients_subset:
  "db s = Some d \<Longrightarrow> set (fst (fst (ReadClients s))) \<subseteq> set (Client_bucket d)"
  by (auto simp: ReadClients_def split: prod.splits if_splits dest!: Find_Client_res)

lemma ReadInflight_subset:
  "db s = Some d \<Longrightarrow> set (fst (fst (ReadInflight s))) \<subseteq> set (Message_bucket d)"
  by (auto simp: ReadInflight_def split: prod.splits if_splits dest!: Find_Message_res)

lemma ReadRetained_subset:
  "db s = Some d \<Longrightarrow> set (fst (fst (ReadRetained s))) \<subseteq> set (Message_bucket d)"
  by (auto simp: ReadRetained_def split: prod.splits if_splits dest!: Find_Message_res)

lemma DeleteSubscription_absent:
  assumes "db s = Some d" and "id' \<notin> set (map Subscription.ID (Subscription_bucket d))"
  shows "fst (DeleteSubscription id' s) \<noteq> None \<and>
         (opened d \<and> faults d = [] \<longrightarrow> fst (DeleteSubscription id' s) = Some ErrNotFound) \<and>
         (\<exists>d'. db (state_after (DeleteSubscription id') s) = Some d' \<and> contents d' = contents d) \<and>
         id' \<notin> set (map Subscription.ID (fst (fst (ReadSubscriptions (state_after (DeleteSubscription id') s)))))"
proof -
  obtain e d' where del: "DeleteStruct_Subscription (zero_Subscription\<lparr>Subscription.ID := id'\<rparr>) d = (e, d')"
    by (cases "DeleteStruct_Subscription (zero_Subscription\<lparr>Subscription.ID := id'\<rparr>) d") auto
  from assms(2) have "Subscription.ID (zero_Subscription\<lparr>Subscription.ID := id'\<rparr>) \<notin> set (map Subscription.ID (Subscription_bucket d))"
    by simp
  from DeleteStruct_Subscription_absent [OF this del]
  have e: "e \<noteq> None" "opened d \<and> faults d = [] \<longrightarrow> e = Some ErrNotFound"
    and c: "contents d' = contents d"
    by simp_all
  from assms(1) del have r: "fst (DeleteSubscription id' s) = e" and db': "db (state_after (DeleteSubscription id') s) = Some d'"
    by (auto simp: DeleteSubscription_def state_after_def split: option.splits)
  from c have "Subscription_bucket d' = Subscription_bucket d"
    by (simp add: contents_def)
  with ReadSubscriptions_subset [OF db'] assms(2)
  have "id' \<notin> set (map Subscription.ID (fst (fst (ReadSubscriptions (state_after (DeleteSubscription id') s)))))"
    by auto
  with e r db' c show ?thesis by simp
qed

lemma DeleteClient_absent:
  assumes "db s = Some d" and "id' \<notin> set (map Client.ID (Client_bucket d))"
  shows "fst (DeleteClient id' s) \<noteq> None \<and>
         (opened d \<and> faults d = [] \<longrightarrow> fst (DeleteClient id' s) = Some ErrNotFound) \<and>
         (\<exists>d'. db (state_after (DeleteClient id') s) = Some d' \<and> contents d' = contents d) \<and>
         id' \<notin> set (map Client.ID (fst (fst (ReadClients (state_after (DeleteClient id') s)))))"
proof -
  obtain e d' where del: "DeleteStruct_Client (zero_Client\<lparr>Client.ID := id'\<rparr>) d = (e, d')"
    by (cases "DeleteStruct_Client (zero_Client\<lparr>Client.ID := id'\<rparr>) d") auto
  from assms(2) have "Client.ID (zero_Client\<lparr>Client.ID := id'\<rparr>) \<notin> set (map Client.ID (Client_bucket d))"
    by simp
  from DeleteStruct_Client_absent [OF this del]
  have e: "e \<noteq> None" "opened d \<and> faults d = [] \<longrightarrow> e = Some ErrNotFound"
    and c: "contents d' = contents d"
    by simp_all
  from assms(1) del have r: "fst (DeleteClient id' s) = e" and db': "db (state_after (DeleteClient id') s) = Some d'"
    by (auto simp: DeleteClient_def state_after_def split: option.splits)
  from c have "Client_bucket d' = Client_bucket d"
    by (simp add: contents_def)
  with ReadClients_subset [OF db'] assms(2)
  have "id' \<notin> set (map Client.ID (fst (fst (ReadClients (state_after (DeleteClient id') s)))))"
    by auto
  with e r db' c show ?thesis by simp
qed

lemma DeleteInflight_absent:
  assumes "db s = Some d" and "id' \<notin> set (map Message.ID (Message_bucket d))"
  shows "fst (DeleteInflight id' s) \<noteq> None \<and>
         (opened d \<and> faults d = [] \<longrightarrow> fst (DeleteInflight id' s) = Some ErrNotFound) \<and>
         (\<exists>d'. db (state_after (DeleteInflight id') s) = Some d' \<and> contents d' = contents d) \<and>
         id' \<notin> set (map Message.ID (fst (fst (ReadInflight (state_after (DeleteInflight id') s)))))"
proof -
  obtain e d' where del: "DeleteStruct_Message (zero_Message\<lparr>Message.ID := id'\<rparr>) d = (e, d')"
    by (cases "DeleteStruct_Message (zero_Message\<lparr>Message.ID := id'\<rparr>) d") auto
  from assms(2) have "Message.ID (zero_Message\<lparr>Message.ID := id'\<rparr>) \<notin> set (map Message.ID (Message_bucket d))"
    by simp
  from DeleteStruct_Message_absent [OF this del]
  have e: "e \<noteq> None" "opened d \<and> faults d = [] \<longrightarrow> e = Some ErrNotFound"
    and c: "contents d' = contents d"
    by simp_all
  from assms(1) del have r: "fst (DeleteInflight id' s) = e" and db': "db (state_after (DeleteInflight id') s) = Some d'"
    by (auto simp: DeleteInflight_def state_after_def split: option.splits)
  from c have "Message_bucket d' = Message_bucket d"
    by (simp add: contents_def)
  with ReadInflight_subset [OF db'] assms(2)
  have "id' \<notin> set (map Message.ID (fst (fst (ReadInflight (state_after (DeleteInflight id') s)))))"
    by auto
  with e r db' c show ?thesis by simp
qed

lemma DeleteRetained_absent:
  assumes "db s = Some d" and "id' \<notin> set (map Message.ID (Message_bucket d))"
  shows "fst (DeleteRetained id' s) \<noteq> None \<and>
         (opened d \<and> faults d = [] \<longrightarrow> fst (DeleteRetained id' s) = Some ErrNotFound) \<and>
         (\<exists>d'. db (state_after (DeleteRetained id') s) = Some d' \<and> contents d' = contents d) \<and>
         id' \<notin> set (map Message.ID (fst (fst (ReadRetained (state_after (DeleteRetained id') s)))))"
proof -
  obtain e d' where del: "DeleteStruct_Message (zero_Message\<lparr>Message.ID := id'\<rparr>) d = (e, d')"
    by (cases "DeleteStruct_Message (zero_Message\<lparr>Message.ID := id'\<rparr>) d") auto
  from assms(2) have "Message.ID (zero_Message\<lparr>Message.ID := id'\<rparr>) \<notin> set (map Message.ID (Message_bucket d))"
    by simp
  from DeleteStruct_Message_absent [OF this del]
  have e: "e \<noteq> None" "opened d \<and> faults d = [] \<longrightarrow> e = Some ErrNotFound"
    and c: "contents d' = contents d"
    by simp_all
  from assms(1) del have r: "fst (DeleteRetained id' s) = e" and db': "db (state_after (DeleteRetained id') s) = Some d'"
    by (auto simp: DeleteRetained_def state_after_def split: option.splits)
  from c have "Message_bucket d' = Message_bucket d"
    by (simp add: contents_def)
  with ReadRetained_subset [OF db'] assms(2)
  have "id' \<notin> set (map Message.ID (fst (fst (ReadRetained (state_after (DeleteRetained id') s)))))"
    by auto
  with e r db' c show ?thesis by simp
qed

text \<open>
  C3, as the code has it. On an opened store, a delete of an identifier that no record of
  the kind's bucket has (for the two kinds of messages: the one bucket of messages)
  leaves the contents as they were, and the kind's read excludes the identifier
  afterwards. The call does not succeed, though: it returns the engine's error, which is
  \<open>ErrNotFound\<close> when the database is open and no input/output failure is pending.
\<close>

theorem Delete_absent_is_an_error:
  assumes "db s = Some d"
  shows "(id' \<notin> set (map Subscription.ID (Subscription_bucket d)) \<longrightarrow>
          (fst (DeleteSubscription id' s) \<noteq> None \<and>
            (opened d \<and> faults d = [] \<longrightarrow> fst (DeleteSubscription id' s) = Some ErrNotFound) \<and>
            (\<exists>d'. db (state_after (DeleteSubscription id') s) = Some d' \<and> contents d' = contents d) \<and>
            id' \<notin> set (map Subscription.ID (fst (fst (ReadSubscriptions (state_after (DeleteSubscription id') s))))))) \<and>
         (id' \<notin> set (map Client.ID (Client_bucket d)) \<longrightarrow>
          (fst (DeleteClient id' s) \<noteq> None \<and>
            (opened d \<and> faults d = [] \<longrightarrow> fst (DeleteClient id' s) = Some ErrNotFound) \<and>
            (\<exists>d'. db (state_after (DeleteClient id') s) = Some d' \<and> contents d' = contents d) \<and>
            id' \<notin> set (map Client.ID (fst (fst (ReadClients (state_after (DeleteClient id') s))))))) \<and>
         (id' \<notin> set (map ID (Message_bucket d)) \<longrightarrow>
          (fst (DeleteInflight id' s) \<noteq> None \<and>
            (opened d \<and> faults d = [] \<longrightarrow> fst (DeleteInflight id' s) = Some ErrNotFound) \<and>
            (\<exists>d'. db (state_after (DeleteInflight id') s) = Some d' \<and> contents d' = contents d) \<and>
            id' \<notin> set (map Message.ID (fst (fst (ReadInflight (state_after (DeleteInflight id') s)))))) \<and>
          (fst (DeleteRetained id' s) \<noteq> None \<and>
            (opened d \<and> faults d = [] \<longrightarrow> fst (DeleteRetained id' s) = Some ErrNotFound) \<and>
            (\<exists>d'. db (state_after (DeleteRetained id') s) = Some d' \<and> contents d' = contents d) \<and>
            id' \<notin> set (map Message.ID (fst (fst (ReadRetained (state_after (DeleteRetained id') s)))))))"
  using DeleteSubscription_absent [OF assms] DeleteClient_absent [OF assms]
    DeleteInflight_absent [OF assms] DeleteRetained_absent [OF assms]
  by blast

theorem Delete_absent_is_an_error_witness:
  "db (opened_on sweep_DB) = Some sweep_DB \<and>
   ''x'' \<notin> set (map Subscription.ID (Subscription_bucket sweep_DB)) \<and>
   ''x'' \<notin> set (map Client.ID (Client_bucket sweep_DB)) \<and>
   ''x'' \<notin> set (map ID (Message_bucket sweep_DB)) \<and>
   opened sweep_DB \<and> faults sweep_DB = [] \<and>
   fst (DeleteSubscription ''x'' (opened_on sweep_DB)) = Some ErrNotFound \<and>
   fst (DeleteClient ''x'' (opened_on sweep_DB)) = Some ErrNotFound \<and>
   fst (DeleteInflight ''x'' (opened_on sweep_DB)) = Some ErrNotFound \<and>
   fst (DeleteRetained ''x'' (opened_on sweep_DB)) = Some ErrNotFound \<and>
   ''x'' \<notin> set (map ID (fst (fst (ReadInflight
      (state_after (DeleteInflight ''x'') (opened_on sweep_DB))))))"
proof -
  have a: "db (opened_on sweep_DB) = Some sweep_DB"
    by (simp add: opened_on_def Open_def)
  have b: "''x'' \<notin> set (map Subscription.ID (Subscription_bucket sweep_DB))"
    "''x'' \<notin> set (map Client.ID (Client_bucket sweep_DB))"
    "''x'' \<notin> set (map ID (Message_bucket sweep_DB))"
    "opened sweep_DB" "faults sweep_DB = []"
    by (simp_all add: fixture_defs)
  from Delete_absent_is_an_error [OF a, of "''x''"] a b show ?thesis
    by simp
qed

text \<open>
  The claim as stated asks for success. On an opened, healthy store that holds no
  message \<open>x\<close>, \<open>DeleteInflight\<close> of \<open>x\<close> returns \<open>ErrNotFound\<close>.
\<close>

theorem Delete_absent_counterexample:
  "db (opened_on sweep_DB) = Some sweep_DB \<and>
   ''x'' \<notin> set (map ID (Message_bucket sweep_DB)) \<and>
   fst (DeleteInflight ''x'' (opened_on sweep_DB)) = Some ErrNotFound \<and>
   fst (DeleteInflight ''x'' (opened_on sweep_DB)) \<noteq> None"
  by (simp add: DeleteInflight_def DeleteStruct_Message_def storm_DeleteStruct_def begin_tx_def
      fixture_defs)

subsection \<open>Each read returns records of its own kind only\<close>

text \<open>
  C4. For every store, every record that \<open>ReadRetained\<close> returns has the discriminator
  \<open>KRetained\<close>, which is not \<open>KInflight\<close>, and every record that \<open>ReadInflight\<close>
  returns has the discriminator \<open>KInflight\<close>, which is not \<open>KRetained\<close>: no record of
  one kind is in the result of the other kind's read, although both reads select from the
  one bucket of messages.
\<close>

theorem reads_select_their_kind:
  "(\<forall>m \<in> set (fst (fst (ReadRetained s))). T m = KRetained \<and> T m \<noteq> KInflight) \<and>
   (\<forall>m \<in> set (fst (fst (ReadInflight s))). T m = KInflight \<and> T m \<noteq> KRetained)"
proof (cases "db s")
  case None
  then show ?thesis by (simp add: ReadRetained_def ReadInflight_def)
next
  case (Some d)
  have k: "KRetained \<noteq> KInflight"
    by (simp add: KRetained_def KInflight_def)
  obtain e v d' where r: "Find_Message T KRetained [] d = (e, v, d')"
    by (cases "Find_Message T KRetained [] d") auto
  obtain e2 v2 d2 where i: "Find_Message T KInflight [] d = (e2, v2, d2)"
    by (cases "Find_Message T KInflight [] d") auto
  from Find_Message_res [OF r] have "\<forall>m \<in> set v. T m = KRetained"
    by (auto split: if_splits)
  moreover from Find_Message_res [OF i] have "\<forall>m \<in> set v2. T m = KInflight"
    by (auto split: if_splits)
  ultimately show ?thesis using Some r i k
    by (auto simp: ReadRetained_def ReadInflight_def)
qed

theorem reads_select_their_kind_witness:
  "retained ''r'' ''p'' \<in> set (fst (fst (ReadRetained (opened_on sweep_DB)))) \<and>
   T (retained ''r'' ''p'') = KRetained \<and> T (retained ''r'' ''p'') \<noteq> KInflight \<and>
   inflight ''c'' 200 \<in> set (fst (fst (ReadInflight (opened_on sweep_DB)))) \<and>
   T (inflight ''c'' 200) = KInflight \<and> T (inflight ''c'' 200) \<noteq> KRetained"
proof -
  have a: "retained ''r'' ''p'' \<in> set (fst (fst (ReadRetained (opened_on sweep_DB))))"
    by (simp add: ReadRetained_def Find_Message_def storm_Find_def begin_tx_def fixture_defs)
  have b: "inflight ''c'' 200 \<in> set (fst (fst (ReadInflight (opened_on sweep_DB))))"
    by (simp add: ReadInflight_def Find_Message_def storm_Find_def begin_tx_def fixture_defs)
  from reads_select_their_kind [of "opened_on sweep_DB"] a b show ?thesis
    by blast
qed

subsection \<open>Not found is not an error of the reads\<close>

lemma ReadSubscriptions_not_found:
  "db s = Some d \<Longrightarrow> fst (Find_Subscription Subscription.T KSubscription [] d) = Some ErrNotFound \<Longrightarrow>
     fst (ReadSubscriptions s) = ([], None)"
  by (auto simp: ReadSubscriptions_def Find_Subscription_def storm_Find_def
      split: prod.splits list.splits option.splits)

lemma ReadSubscriptions_never_not_found: "snd (fst (ReadSubscriptions s)) \<noteq> Some ErrNotFound"
  by (auto simp: ReadSubscriptions_def split: prod.splits option.splits)

lemma ReadClients_not_found:
  "db s = Some d \<Longrightarrow> fst (Find_Client Client.T KClient [] d) = Some ErrNotFound \<Longrightarrow>
     fst (ReadClients s) = ([], None)"
  by (auto simp: ReadClients_def Find_Client_def storm_Find_def
      split: prod.splits list.splits option.splits)

lemma ReadClients_never_not_found: "snd (fst (ReadClients s)) \<noteq> Some ErrNotFound"
  by (auto simp: ReadClients_def split: prod.splits option.splits)

lemma ReadInflight_not_found:
  "db s = Some d \<Longrightarrow> fst (Find_Message T KInflight [] d) = Some ErrNotFound \<Longrightarrow>
     fst (ReadInflight s) = ([], None)"
  by (auto simp: ReadInflight_def Find_Message_def storm_Find_def
      split: prod.splits list.splits option.splits)

lemma ReadInflight_never_not_found: "snd (fst (ReadInflight s)) \<noteq> Some ErrNotFound"
  by (auto simp: ReadInflight_def split: prod.splits option.splits)

lemma ReadRetained_not_found:
  "db s = Some d \<Longrightarrow> fst (Find_Message T KRetained [] d) = Some ErrNotFound \<Longrightarrow>
     fst (ReadRetained s) = ([], None)"
  by (auto simp: ReadRetained_def Find_Message_def storm_Find_def
      split: prod.splits list.splits option.splits)

lemma ReadRetained_never_not_found: "snd (fst (ReadRetained s)) \<noteq> Some ErrNotFound"
  by (auto simp: ReadRetained_def split: prod.splits option.splits)

lemma ReadServerInfo_not_found:
  "db s = Some d \<Longrightarrow>
     fst (One_ServerInfo ServerInfo.ID KServerInfo zero_ServerInfo d) = Some ErrNotFound \<Longrightarrow>
     fst (ReadServerInfo s) = (zero_ServerInfo, None)"
  by (auto simp: ReadServerInfo_def One_ServerInfo_def storm_One_def
      split: prod.splits list.splits option.splits)

lemma ReadServerInfo_never_not_found: "snd (fst (ReadServerInfo s)) \<noteq> Some ErrNotFound"
  by (auto simp: ReadServerInfo_def split: prod.splits option.splits)

lemma Open_ok: "db (state_after (Open (\<lambda>p q. Inr d)) s) = Some d"
  by (simp add: state_after_def Open_def)

lemma ReadServerInfo_fresh:
  "db s = Some empty_DB \<Longrightarrow> fst (ReadServerInfo s) = (zero_ServerInfo, None)"
  by (simp add: ReadServerInfo_def One_ServerInfo_def storm_One_def begin_tx_def empty_DB_def)

text \<open>
  C5. On an opened store, when the engine's \<open>Find\<close> reports \<open>ErrNotFound\<close> the read
  of that kind returns the empty list and no error, and when the engine's \<open>One\<close>
  reports it \<open>ReadServerInfo\<close> returns the zero value and no error. No read ever
  returns \<open>ErrNotFound\<close>. On a store just opened on a new, empty database, whatever
  the path and the options, \<open>ReadServerInfo\<close> returns the zero value and no error.
\<close>

theorem reads_swallow_not_found:
  assumes "db s = Some d"
  shows "(fst (Find_Subscription Subscription.T KSubscription [] d) = Some ErrNotFound \<longrightarrow>
            fst (ReadSubscriptions s) = ([], None)) \<and>
         (fst (Find_Client Client.T KClient [] d) = Some ErrNotFound \<longrightarrow>
            fst (ReadClients s) = ([], None)) \<and>
         (fst (Find_Message T KInflight [] d) = Some ErrNotFound \<longrightarrow>
            fst (ReadInflight s) = ([], None)) \<and>
         (fst (Find_Message T KRetained [] d) = Some ErrNotFound \<longrightarrow>
            fst (ReadRetained s) = ([], None)) \<and>
         (fst (One_ServerInfo ServerInfo.ID KServerInfo zero_ServerInfo d) = Some ErrNotFound \<longrightarrow>
            fst (ReadServerInfo s) = (zero_ServerInfo, None)) \<and>
         snd (fst (ReadSubscriptions s)) \<noteq> Some ErrNotFound \<and>
         snd (fst (ReadClients s)) \<noteq> Some ErrNotFound \<and>
         snd (fst (ReadInflight s)) \<noteq> Some ErrNotFound \<and>
         snd (fst (ReadRetained s)) \<noteq> Some ErrNotFound \<and>
         snd (fst (ReadServerInfo s)) \<noteq> Some ErrNotFound \<and>
         fst (ReadServerInfo (state_after (Open (\<lambda>p q. Inr empty_DB)) (New path0 opts0))) =
           (zero_ServerInfo, None)"
  using ReadSubscriptions_not_found [OF assms] ReadClients_not_found [OF assms]
    ReadInflight_not_found [OF assms] ReadRetained_not_found [OF assms]
    ReadServerInfo_not_found [OF assms]
    ReadSubscriptions_never_not_found [of s] ReadClients_never_not_found [of s]
    ReadInflight_never_not_found [of s] ReadRetained_never_not_found [of s]
    ReadServerInfo_never_not_found [of s]
    ReadServerInfo_fresh [OF Open_ok, of "New path0 opts0"]
  by blast

theorem reads_swallow_not_found_witness:
  "db (opened_on empty_DB) = Some empty_DB \<and>
   fst (Find_Subscription Subscription.T KSubscription [] empty_DB) = Some ErrNotFound \<and>
   fst (Find_Client Client.T KClient [] empty_DB) = Some ErrNotFound \<and>
   fst (Find_Message T KInflight [] empty_DB) = Some ErrNotFound \<and>
   fst (Find_Message T KRetained [] empty_DB) = Some ErrNotFound \<and>
   fst (One_ServerInfo ServerInfo.ID KServerInfo zero_ServerInfo empty_DB) = Some ErrNotFound \<and>
   fst (ReadSubscriptions (opened_on empty_DB)) = ([], None) \<and>
   fst (ReadClients (opened_on empty_DB)) = ([], None) \<and>
   fst (ReadInflight (opened_on empty_DB)) = ([], None) \<and>
   fst (ReadRetained (opened_on empty_DB)) = ([], None) \<and>
   fst (ReadServerInfo (opened_on empty_DB)) = (zero_ServerInfo, None)"
proof -
  have a: "db (opened_on empty_DB) = Some empty_DB"
    by (simp add: opened_on_def Open_def)
  have b: "fst (Find_Subscription Subscription.T KSubscription [] empty_DB) = Some ErrNotFound"
    "fst (Find_Client Client.T KClient [] empty_DB) = Some ErrNotFound"
    "fst (Find_Message T KInflight [] empty_DB) = Some ErrNotFound"
    "fst (Find_Message T KRetained [] empty_DB) = Some ErrNotFound"
    "fst (One_ServerInfo ServerInfo.ID KServerInfo zero_ServerInfo empty_DB) = Some ErrNotFound"
    by (simp_all add: Find_Subscription_def Find_Client_def Find_Message_def One_ServerInfo_def
        storm_Find_def storm_One_def begin_tx_def empty_DB_def)
  from reads_swallow_not_found [OF a] a b show ?thesis
    by simp
qed

subsection \<open>The sweep stops at the first delete that fails\<close>

text \<open>
  C6. On an opened store whose buckets hold no identifier twice, let the engine find the
  inflight messages \<open>pre @ m # post\<close>, let the loop pass \<open>pre\<close> without an error,
  let \<open>m\<close> be stale and let its delete fail with \<open>err\<close>. Then
  \<open>ClearExpiredInflight\<close> returns \<open>err\<close>, and the bucket of messages is the one the
  loop over \<open>pre\<close> left: the stale messages of \<open>pre\<close> are gone, and \<open>m\<close> and every
  message of \<open>post\<close>, stale or not, are still stored.
\<close>

theorem ClearExpiredInflight_fails_fast:
  assumes "db s = Some d" and "wf_DB d"
    and "Find_Message T KInflight [] d = (None, pre @ m # post, d0)"
    and "ClearExpiredInflight_loop expiry pre d0 = (None, d1)"
    and "Created m <s expiry \<or> Created m = 0"
    and "DeleteStruct_Message (zero_Message\<lparr>ID := ID m\<rparr>) d1 = (Some err, d2)"
  shows "fst (ClearExpiredInflight expiry s) = Some err \<and>
         db (state_after (ClearExpiredInflight expiry) s) = Some d2 \<and>
         Message_bucket d2 =
           filter (\<lambda>x. ID x \<notin> set (map ID (filter (stale expiry) pre))) (Message_bucket d) \<and>
         set (m # post) \<subseteq> set (Message_bucket d2)"
proof -
  from assms(5) have st: "stale expiry m"
    by (simp add: stale_def)
  with assms(4,6) have "ClearExpiredInflight_loop expiry (pre @ m # post) d0 = (Some err, d2)"
    by (simp add: loop_append)
  with assms(1,3) have res: "ClearExpiredInflight expiry s = (Some err, s\<lparr>db := Some d2\<rparr>)"
    by (simp add: ClearExpiredInflight_def)
  from Find_Message_res [OF assms(3)] have
    v: "pre @ m # post = filter (\<lambda>r. T r = KInflight) (Message_bucket d)"
    and b0: "Message_bucket d0 = Message_bucket d"
    by (simp_all add: contents_def)
  from loop_ok [OF assms(4)] b0 have
    b1: "Message_bucket d1 =
      filter (\<lambda>x. ID x \<notin> set (map ID (filter (stale expiry) pre))) (Message_bucket d)"
    by simp
  from DeleteStruct_Message_err [OF assms(6)] have b2: "Message_bucket d2 = Message_bucket d1"
    by (simp add: contents_def)
  from assms(2) have "distinct (map ID (Message_bucket d))"
    by (simp add: wf_DB_def)
  then have "distinct (map ID (pre @ m # post))"
    unfolding v by (rule distinct_map_filter)
  then have disj: "\<forall>x \<in> set (m # post). ID x \<notin> set (map ID pre)"
    by auto
  have sub: "set (m # post) \<subseteq> set (Message_bucket d)"
  proof -
    have "set (m # post) \<subseteq> set (pre @ m # post)" by auto
    also have "\<dots> \<subseteq> set (Message_bucket d)" unfolding v by auto
    finally show ?thesis .
  qed
  have "set (m # post) \<subseteq> set (Message_bucket d2)"
    unfolding b2 b1 using sub disj by auto
  with res b1 b2 show ?thesis
    by (simp add: state_after_def)
qed

theorem ClearExpiredInflight_fails_fast_witness:
  "db (opened_on faulty_DB) = Some faulty_DB \<and> wf_DB faulty_DB \<and>
   fst (ClearExpiredInflight 250 (opened_on faulty_DB)) = Some (ErrIO ''disk full'') \<and>
   Message_bucket (the (db (state_after (ClearExpiredInflight 250) (opened_on faulty_DB)))) =
     [inflight ''b'' 100, retained ''r'' ''p'', inflight ''c'' 200, inflight ''d'' 300] \<and>
   Created (inflight ''c'' 200) <s 250"
proof -
  have a: "db (opened_on faulty_DB) = Some faulty_DB"
    by (simp add: opened_on_def Open_def)
  have b: "wf_DB faulty_DB"
    by (simp add: wf_DB_def faulty_DB_def fixture_defs)
  have c: "Find_Message T KInflight [] faulty_DB =
      (None, [inflight ''a'' 0] @ inflight ''b'' 100 # [inflight ''c'' 200, inflight ''d'' 300],
       faulty_DB\<lparr>faults := [None, Some ''disk full'']\<rparr>)"
    by (simp add: Find_Message_def storm_Find_def begin_tx_def faulty_DB_def fixture_defs)
  have d: "ClearExpiredInflight_loop 250 [inflight ''a'' 0] (faulty_DB\<lparr>faults := [None, Some ''disk full'']\<rparr>) =
      (None, faulty_DB\<lparr>faults := [Some ''disk full''],
         Message_bucket := [inflight ''b'' 100, retained ''r'' ''p'', inflight ''c'' 200,
           inflight ''d'' 300]\<rparr>)"
    by (simp add: stale_def DeleteStruct_Message_def storm_DeleteStruct_def begin_tx_def
        faulty_DB_def fixture_defs)
  have e: "Created (inflight ''b'' 100) <s 250 \<or> Created (inflight ''b'' 100) = 0"
    by (simp add: fixture_defs)
  have f: "DeleteStruct_Message (zero_Message\<lparr>ID := ID (inflight ''b'' 100)\<rparr>)
      (faulty_DB\<lparr>faults := [Some ''disk full''],
         Message_bucket := [inflight ''b'' 100, retained ''r'' ''p'', inflight ''c'' 200,
           inflight ''d'' 300]\<rparr>) =
      (Some (ErrIO ''disk full''), faulty_DB\<lparr>faults := [],
         Message_bucket := [inflight ''b'' 100, retained ''r'' ''p'', inflight ''c'' 200,
           inflight ''d'' 300]\<rparr>)"
    by (simp add: DeleteStruct_Message_def storm_DeleteStruct_def begin_tx_def
        faulty_DB_def fixture_defs)
  have g: "Created (inflight ''c'' 200) <s 250"
    by (simp add: fixture_defs)
  from ClearExpiredInflight_fails_fast [OF a b c d e f] a b g show ?thesis
    by simp
qed

subsection \<open>A store that was never opened, and a store that was closed\<close>

lemma WriteServerInfo_nil: "db s = None \<Longrightarrow> WriteServerInfo v s = (Some ErrDBNotOpen, s)"
  by (simp add: WriteServerInfo_def)

lemma WriteServerInfo_closed:
  "db s = Some d \<Longrightarrow> \<not> opened d \<Longrightarrow>
     fst (WriteServerInfo v s) = Some (if ServerInfo.ID v = [] then ErrZeroID else ErrDatabaseNotOpen)"
  by (simp add: WriteServerInfo_def Save_ServerInfo_def storm_Save_def begin_tx_closed)

lemma WriteSubscription_nil: "db s = None \<Longrightarrow> WriteSubscription v s = (Some ErrDBNotOpen, s)"
  by (simp add: WriteSubscription_def)

lemma WriteSubscription_closed:
  "db s = Some d \<Longrightarrow> \<not> opened d \<Longrightarrow>
     fst (WriteSubscription v s) = Some (if Subscription.ID v = [] then ErrZeroID else ErrDatabaseNotOpen)"
  by (simp add: WriteSubscription_def Save_Subscription_def storm_Save_def begin_tx_closed)

lemma WriteInflight_nil: "db s = None \<Longrightarrow> WriteInflight v s = (Some ErrDBNotOpen, s)"
  by (simp add: WriteInflight_def)

lemma WriteInflight_closed:
  "db s = Some d \<Longrightarrow> \<not> opened d \<Longrightarrow>
     fst (WriteInflight v s) = Some (if Message.ID v = [] then ErrZeroID else ErrDatabaseNotOpen)"
  by (simp add: WriteInflight_def Save_Message_def storm_Save_def begin_tx_closed)

lemma WriteRetained_nil: "db s = None \<Longrightarrow> WriteRetained v s = (Some ErrDBNotOpen, s)"
  by (simp add: WriteRetained_def)

lemma WriteRetained_closed:
  "db s = Some d \<Longrightarrow> \<not> opened d \<Longrightarrow>
     fst (WriteRetained v s) = Some (if Message.ID v = [] then ErrZeroID else ErrDatabaseNotOpen)"
  by (simp add: WriteRetained_def Save_Message_def storm_Save_def begin_tx_closed)

lemma WriteClient_nil: "db s = None \<Longrightarrow> WriteClient v s = (Some ErrDBNotOpen, s)"
  by (simp add: WriteClient_def)

lemma WriteClient_closed:
  "db s = Some d \<Longrightarrow> \<not> opened d \<Longrightarrow>
     fst (WriteClient v s) = Some (if Client.ID v = [] then ErrZeroID else ErrDatabaseNotOpen)"
  by (simp add: WriteClient_def Save_Client_def storm_Save_def begin_tx_closed)

lemma DeleteSubscription_nil: "db s = None \<Longrightarrow> DeleteSubscription id' s = (Some ErrDBNotOpen, s)"
  by (simp add: DeleteSubscription_def)

lemma DeleteSubscription_closed:
  "db s = Some d \<Longrightarrow> \<not> opened d \<Longrightarrow> fst (DeleteSubscription id' s) = Some ErrDatabaseNotOpen"
  by (simp add: DeleteSubscription_def DeleteStruct_Subscription_def storm_DeleteStruct_def begin_tx_closed)

lemma DeleteClient_nil: "db s = None \<Longrightarrow> DeleteClient id' s = (Some ErrDBNotOpen, s)"
  by (simp add: DeleteClient_def)

lemma DeleteClient_closed:
  "db s = Some d \<Longrightarrow> \<not> opened d \<Longrightarrow> fst (DeleteClient id' s) = Some ErrDatabaseNotOpen"
  by (simp add: DeleteClient_def DeleteStruct_Client_def storm_DeleteStruct_def begin_tx_closed)

lemma DeleteInflight_nil: "db s = None \<Longrightarrow> DeleteInflight id' s = (Some ErrDBNotOpen, s)"
  by (simp add: DeleteInflight_def)

lemma DeleteInflight_closed:
  "db s = Some d \<Longrightarrow> \<not> opened d \<Longrightarrow> fst (DeleteInflight id' s) = Some ErrDatabaseNotOpen"
  by (simp add: DeleteInflight_def DeleteStruct_Message_def storm_DeleteStruct_def begin_tx_closed)

lemma DeleteRetained_nil: "db s = None \<Longrightarrow> DeleteRetained id' s = (Some ErrDBNotOpen, s)"
  by (simp add: DeleteRetained_def)

lemma DeleteRetained_closed:
  "db s = Some d \<Longrightarrow> \<not> opened d \<Longrightarrow> fst (DeleteRetained id' s) = Some ErrDatabaseNotOpen"
  by (simp add: DeleteRetained_def DeleteStruct_Message_def storm_DeleteStruct_def begin_tx_closed)

lemma ReadSubscriptions_nil: "db s = None \<Longrightarrow> ReadSubscriptions s = (([], Some ErrDBNotOpen), s)"
  by (simp add: ReadSubscriptions_def)

lemma ReadSubscriptions_closed:
  "db s = Some d \<Longrightarrow> \<not> opened d \<Longrightarrow> fst (ReadSubscriptions s) = ([], Some ErrDatabaseNotOpen)"
  by (simp add: ReadSubscriptions_def Find_Subscription_def storm_Find_def begin_tx_closed)

lemma ReadClients_nil: "db s = None \<Longrightarrow> ReadClients s = (([], Some ErrDBNotOpen), s)"
  by (simp add: ReadClients_def)

lemma ReadClients_closed:
  "db s = Some d \<Longrightarrow> \<not> opened d \<Longrightarrow> fst (ReadClients s) = ([], Some ErrDatabaseNotOpen)"
  by (simp add: ReadClients_def Find_Client_def storm_Find_def begin_tx_closed)

lemma ReadInflight_nil: "db s = None \<Longrightarrow> ReadInflight s = (([], Some ErrDBNotOpen), s)"
  by (simp add: ReadInflight_def)

lemma ReadInflight_closed:
  "db s = Some d \<Longrightarrow> \<not> opened d \<Longrightarrow> fst (ReadInflight s) = ([], Some ErrDatabaseNotOpen)"
  by (simp add: ReadInflight_def Find_Message_def storm_Find_def begin_tx_closed)

lemma ReadRetained_nil: "db s = None \<Longrightarrow> ReadRetained s = (([], Some ErrDBNotOpen), s)"
  by (simp add: ReadRetained_def)

lemma ReadRetained_closed:
  "db s = Some d \<Longrightarrow> \<not> opened d \<Longrightarrow> fst (ReadRetained s) = ([], Some ErrDatabaseNotOpen)"
  by (simp add: ReadRetained_def Find_Message_def storm_Find_def begin_tx_closed)

lemma ReadServerInfo_nil:
  "db s = None \<Longrightarrow> ReadServerInfo s = ((zero_ServerInfo, Some ErrDBNotOpen), s)"
  by (simp add: ReadServerInfo_def)

lemma ReadServerInfo_closed:
  "db s = Some d \<Longrightarrow> \<not> opened d \<Longrightarrow>
     fst (ReadServerInfo s) = (zero_ServerInfo, Some ErrDatabaseNotOpen)"
  by (simp add: ReadServerInfo_def One_ServerInfo_def storm_One_def begin_tx_closed)

lemma ClearExpiredInflight_nil:
  "db s = None \<Longrightarrow> ClearExpiredInflight expiry s = (Some ErrDBNotOpen, s)"
  by (simp add: ClearExpiredInflight_def)

lemma ClearExpiredInflight_closed:
  "db s = Some d \<Longrightarrow> \<not> opened d \<Longrightarrow>
     fst (ClearExpiredInflight expiry s) = Some ErrDatabaseNotOpen"
  by (simp add: ClearExpiredInflight_def Find_Message_def storm_Find_def begin_tx_closed)

lemma Close_assigned:
  "db s = Some d \<Longrightarrow> Close s = Inr (s\<lparr>db := Some (d\<lparr>opened := False\<rparr>)\<rparr>)"
  by (simp add: Close_def storm_Close_def)

lemma unopened_store:
  assumes "db s = None"
  shows "WriteServerInfo i s = (Some ErrDBNotOpen, s) \<and>
         WriteSubscription u s = (Some ErrDBNotOpen, s) \<and>
         WriteInflight m s = (Some ErrDBNotOpen, s) \<and>
         WriteRetained m s = (Some ErrDBNotOpen, s) \<and>
         WriteClient c s = (Some ErrDBNotOpen, s) \<and>
         DeleteSubscription id' s = (Some ErrDBNotOpen, s) \<and>
         DeleteClient id' s = (Some ErrDBNotOpen, s) \<and>
         DeleteInflight id' s = (Some ErrDBNotOpen, s) \<and>
         DeleteRetained id' s = (Some ErrDBNotOpen, s) \<and>
         ReadSubscriptions s = (([], Some ErrDBNotOpen), s) \<and>
         ReadClients s = (([], Some ErrDBNotOpen), s) \<and>
         ReadInflight s = (([], Some ErrDBNotOpen), s) \<and>
         ReadRetained s = (([], Some ErrDBNotOpen), s) \<and>
         ReadServerInfo s = ((zero_ServerInfo, Some ErrDBNotOpen), s) \<and>
         ClearExpiredInflight expiry s = (Some ErrDBNotOpen, s)"
  using assms
  by (simp add:
      WriteServerInfo_nil WriteSubscription_nil WriteInflight_nil WriteRetained_nil
      WriteClient_nil DeleteSubscription_nil DeleteClient_nil DeleteInflight_nil
      DeleteRetained_nil ReadSubscriptions_nil ReadClients_nil ReadInflight_nil
      ReadRetained_nil ReadServerInfo_nil ClearExpiredInflight_nil)

lemma closed_handle:
  assumes "db s = Some d" and "\<not> opened d"
  shows "fst (WriteServerInfo i s) =
        Some (if ServerInfo.ID i = [] then ErrZeroID else ErrDatabaseNotOpen) \<and>
      fst (WriteSubscription u s) =
        Some (if Subscription.ID u = [] then ErrZeroID else ErrDatabaseNotOpen) \<and>
      fst (WriteInflight m s) =
        Some (if Message.ID m = [] then ErrZeroID else ErrDatabaseNotOpen) \<and>
      fst (WriteRetained m s) =
        Some (if Message.ID m = [] then ErrZeroID else ErrDatabaseNotOpen) \<and>
      fst (WriteClient c s) =
        Some (if Client.ID c = [] then ErrZeroID else ErrDatabaseNotOpen) \<and>
      fst (DeleteSubscription id' s) = Some ErrDatabaseNotOpen \<and>
      fst (DeleteClient id' s) = Some ErrDatabaseNotOpen \<and>
      fst (DeleteInflight id' s) = Some ErrDatabaseNotOpen \<and>
      fst (DeleteRetained id' s) = Some ErrDatabaseNotOpen \<and>
      fst (ReadSubscriptions s) = ([], Some ErrDatabaseNotOpen) \<and>
      fst (ReadClients s) = ([], Some ErrDatabaseNotOpen) \<and>
      fst (ReadInflight s) = ([], Some ErrDatabaseNotOpen) \<and>
      fst (ReadRetained s) = ([], Some ErrDatabaseNotOpen) \<and>
      fst (ReadServerInfo s) = (zero_ServerInfo, Some ErrDatabaseNotOpen) \<and>
      fst (ClearExpiredInflight expiry s) = Some ErrDatabaseNotOpen"
  using
    WriteServerInfo_closed [OF assms] WriteSubscription_closed [OF assms]
    WriteInflight_closed [OF assms] WriteRetained_closed [OF assms]
    WriteClient_closed [OF assms] DeleteSubscription_closed [OF assms]
    DeleteClient_closed [OF assms] DeleteInflight_closed [OF assms]
    DeleteRetained_closed [OF assms] ReadSubscriptions_closed [OF assms]
    ReadClients_closed [OF assms] ReadInflight_closed [OF assms]
    ReadRetained_closed [OF assms] ReadServerInfo_closed [OF assms]
    ClearExpiredInflight_closed [OF assms]
  by simp

text \<open>
  C7, as the code has it. A store that \<open>New\<close> built has a nil handle. On a nil handle
  each write, delete and read and the sweep returns \<open>ErrDBNotOpen\<close> and leaves the store
  as it was. On a handle whose database has been closed each of them returns an error as
  well, but not \<open>ErrDBNotOpen\<close>: \<open>Close\<close> leaves the handle assigned, so the check
  for nil passes and the call reaches the closed engine, which answers
  \<open>ErrDatabaseNotOpen\<close>; only a write of a record with an empty identifier is refused
  before that, with \<open>ErrZeroID\<close>. \<open>Close\<close> has no error result; on an assigned
  handle, open or closed already, it returns without a panic and leaves the handle
  assigned to the closed database.
\<close>

theorem unopened_store_is_ErrDBNotOpen:
  "db (New path0 opts0) = None \<and>
   (db s = None \<longrightarrow>
      WriteServerInfo i s = (Some ErrDBNotOpen, s) \<and>
      WriteSubscription u s = (Some ErrDBNotOpen, s) \<and>
      WriteInflight m s = (Some ErrDBNotOpen, s) \<and>
      WriteRetained m s = (Some ErrDBNotOpen, s) \<and>
      WriteClient c s = (Some ErrDBNotOpen, s) \<and>
      DeleteSubscription id' s = (Some ErrDBNotOpen, s) \<and>
      DeleteClient id' s = (Some ErrDBNotOpen, s) \<and>
      DeleteInflight id' s = (Some ErrDBNotOpen, s) \<and>
      DeleteRetained id' s = (Some ErrDBNotOpen, s) \<and>
      ReadSubscriptions s = (([], Some ErrDBNotOpen), s) \<and>
      ReadClients s = (([], Some ErrDBNotOpen), s) \<and>
      ReadInflight s = (([], Some ErrDBNotOpen), s) \<and>
      ReadRetained s = (([], Some ErrDBNotOpen), s) \<and>
      ReadServerInfo s = ((zero_ServerInfo, Some ErrDBNotOpen), s) \<and>
      ClearExpiredInflight expiry s = (Some ErrDBNotOpen, s)) \<and>
   (db s = Some d \<and> \<not> opened d \<longrightarrow>
      fst (WriteServerInfo i s) =
        Some (if ServerInfo.ID i = [] then ErrZeroID else ErrDatabaseNotOpen) \<and>
      fst (WriteSubscription u s) =
        Some (if Subscription.ID u = [] then ErrZeroID else ErrDatabaseNotOpen) \<and>
      fst (WriteInflight m s) =
        Some (if Message.ID m = [] then ErrZeroID else ErrDatabaseNotOpen) \<and>
      fst (WriteRetained m s) =
        Some (if Message.ID m = [] then ErrZeroID else ErrDatabaseNotOpen) \<and>
      fst (WriteClient c s) =
        Some (if Client.ID c = [] then ErrZeroID else ErrDatabaseNotOpen) \<and>
      fst (DeleteSubscription id' s) = Some ErrDatabaseNotOpen \<and>
      fst (DeleteClient id' s) = Some ErrDatabaseNotOpen \<and>
      fst (DeleteInflight id' s) = Some ErrDatabaseNotOpen \<and>
      fst (DeleteRetained id' s) = Some ErrDatabaseNotOpen \<and>
      fst (ReadSubscriptions s) = ([], Some ErrDatabaseNotOpen) \<and>
      fst (ReadClients s) = ([], Some ErrDatabaseNotOpen) \<and>
      fst (ReadInflight s) = ([], Some ErrDatabaseNotOpen) \<and>
      fst (ReadRetained s) = ([], Some ErrDatabaseNotOpen) \<and>
      fst (ReadServerInfo s) = (zero_ServerInfo, Some ErrDatabaseNotOpen) \<and>
      fst (ClearExpiredInflight expiry s) = Some ErrDatabaseNotOpen) \<and>
   (db s = Some d \<longrightarrow> Close s = Inr (s\<lparr>db := Some (d\<lparr>opened := False\<rparr>)\<rparr>))"
  using unopened_store [of s] closed_handle [of s d] Close_assigned [of s d]
  by (simp add: New_def Let_def)

theorem unopened_store_is_ErrDBNotOpen_witness:
  "db (New [] None) = None \<and>
   WriteServerInfo (server_info ''x'') (New [] None) = (Some ErrDBNotOpen, New [] None) \<and>
   DeleteClient ''c'' (New [] None) = (Some ErrDBNotOpen, New [] None) \<and>
   ReadInflight (New [] None) = (([], Some ErrDBNotOpen), New [] None) \<and>
   ReadServerInfo (New [] None) = ((zero_ServerInfo, Some ErrDBNotOpen), New [] None) \<and>
   ClearExpiredInflight 200 (New [] None) = (Some ErrDBNotOpen, New [] None) \<and>
   db (opened_on sweep_DB) = Some sweep_DB \<and>
   Close (opened_on sweep_DB) = Inr closed_store \<and>
   db closed_store = Some (sweep_DB\<lparr>opened := False\<rparr>) \<and>
   \<not> opened (sweep_DB\<lparr>opened := False\<rparr>) \<and>
   Close closed_store = Inr closed_store \<and>
   fst (WriteInflight (inflight ''e'' 400) closed_store) = Some ErrDatabaseNotOpen \<and>
   fst (WriteInflight (inflight [] 400) closed_store) = Some ErrZeroID \<and>
   fst (DeleteInflight ''a'' closed_store) = Some ErrDatabaseNotOpen \<and>
   fst (ReadRetained closed_store) = ([], Some ErrDatabaseNotOpen) \<and>
   fst (ClearExpiredInflight 200 closed_store) = Some ErrDatabaseNotOpen"
proof -
  have a: "db (New [] None) = None"
    by (simp add: New_def)
  have b: "db (opened_on sweep_DB) = Some sweep_DB"
    by (simp add: opened_on_def Open_def)
  have c: "db closed_store = Some (sweep_DB\<lparr>opened := False\<rparr>)"
    "\<not> opened (sweep_DB\<lparr>opened := False\<rparr>)"
    by (simp_all add: closed_store_def)
  have e: "(opened_on sweep_DB)\<lparr>db := Some (sweep_DB\<lparr>opened := False\<rparr>)\<rparr> = closed_store"
    "closed_store\<lparr>db := Some (sweep_DB\<lparr>opened := False, opened := False\<rparr>)\<rparr> =
       closed_store"
    by (simp_all add: closed_store_def)
  have f: "ID (inflight ''e'' 400) \<noteq> []" "ID (inflight [] 400) = []"
    by (simp_all add: inflight_def)
  from unopened_store_is_ErrDBNotOpen [where s = "New [] None" and ?path0.0 = "[]"
      and ?opts0.0 = None and i = "server_info ''x''" and id' = "''c''" and expiry = 200] a
  have nil: "WriteServerInfo (server_info ''x'') (New [] None) = (Some ErrDBNotOpen, New [] None)"
    "DeleteClient ''c'' (New [] None) = (Some ErrDBNotOpen, New [] None)"
    "ReadInflight (New [] None) = (([], Some ErrDBNotOpen), New [] None)"
    "ReadServerInfo (New [] None) = ((zero_ServerInfo, Some ErrDBNotOpen), New [] None)"
    "ClearExpiredInflight 200 (New [] None) = (Some ErrDBNotOpen, New [] None)"
    by simp_all
  from unopened_store_is_ErrDBNotOpen [where s = "opened_on sweep_DB" and d = sweep_DB] b e
  have cl1: "Close (opened_on sweep_DB) = Inr closed_store"
    by simp
  from unopened_store_is_ErrDBNotOpen [where s = closed_store
      and d = "sweep_DB\<lparr>opened := False\<rparr>" and m = "inflight ''e'' 400" and id' = "''a''"
      and expiry = 200] c e f
  have cl2: "Close closed_store = Inr closed_store"
    "fst (WriteInflight (inflight ''e'' 400) closed_store) = Some ErrDatabaseNotOpen"
    "fst (DeleteInflight ''a'' closed_store) = Some ErrDatabaseNotOpen"
    "fst (ReadRetained closed_store) = ([], Some ErrDatabaseNotOpen)"
    "fst (ClearExpiredInflight 200 closed_store) = Some ErrDatabaseNotOpen"
    by simp_all
  from unopened_store_is_ErrDBNotOpen [where s = closed_store
      and d = "sweep_DB\<lparr>opened := False\<rparr>" and m = "inflight [] 400"] c f
  have cl3: "fst (WriteInflight (inflight [] 400) closed_store) = Some ErrZeroID"
    by simp
  from a b c nil cl1 cl2 cl3 show ?thesis
    by simp
qed

text \<open>
  The claim as stated lists \<open>Close\<close> and closed handles. \<open>Close\<close> has no error
  result and no check for nil: on a store that was never opened it dereferences the nil
  handle. After \<open>Close\<close> on an opened store, a write returns the engine's
  \<open>ErrDatabaseNotOpen\<close>, which is not \<open>ErrDBNotOpen\<close>.
\<close>

theorem closed_store_counterexample:
  "db (New [] None) = None \<and> Close (New [] None) = Inl NilDereference \<and>
   Close (opened_on sweep_DB) = Inr closed_store \<and>
   fst (WriteInflight (inflight ''e'' 400) closed_store) = Some ErrDatabaseNotOpen \<and>
   fst (WriteInflight (inflight ''e'' 400) closed_store) \<noteq> Some ErrDBNotOpen \<and>
   fst (DeleteInflight ''a'' closed_store) \<noteq> Some ErrDBNotOpen \<and>
   snd (fst (ReadInflight closed_store)) \<noteq> Some ErrDBNotOpen \<and>
   fst (ClearExpiredInflight 200 closed_store) \<noteq> Some ErrDBNotOpen"
  by (simp add: Close_def closed_store_def storm_Close_def WriteInflight_def DeleteInflight_def
      ReadInflight_def ClearExpiredInflight_def Save_Message_def DeleteStruct_Message_def
      Find_Message_def storm_Save_def storm_DeleteStruct_def storm_Find_def begin_tx_def
      fixture_defs)

subsection \<open>A delete removes by identifier only\<close>

lemma DeleteSubscription_frame:
  assumes "db s = Some d" and "wf_DB d"
  shows "\<exists>d'. db (state_after (DeleteSubscription id') s) = Some d' \<and>
           ServerInfo_bucket d' = ServerInfo_bucket d \<and>
           Client_bucket d' = Client_bucket d \<and>
           Message_bucket d' = Message_bucket d \<and>
           filter (\<lambda>x. Subscription.ID x \<noteq> id') (Subscription_bucket d') =
             filter (\<lambda>x. Subscription.ID x \<noteq> id') (Subscription_bucket d) \<and>
           length (Subscription_bucket d) \<le> Suc (length (Subscription_bucket d')) \<and>
           (fst (DeleteSubscription id' s) = None \<longrightarrow> id' \<notin> set (map Subscription.ID (Subscription_bucket d')))"
proof -
  obtain e d' where del: "DeleteStruct_Subscription (zero_Subscription\<lparr>Subscription.ID := id'\<rparr>) d = (e, d')"
    by (cases "DeleteStruct_Subscription (zero_Subscription\<lparr>Subscription.ID := id'\<rparr>) d") auto
  from assms(1) del have r: "fst (DeleteSubscription id' s) = e" and db': "db (state_after (DeleteSubscription id') s) = Some d'"
    by (auto simp: DeleteSubscription_def state_after_def split: option.splits)
  from assms(2) have dist: "distinct (map Subscription.ID (Subscription_bucket d))"
    by (simp add: wf_DB_def)
  show ?thesis
  proof (cases e)
    case None
    from DeleteStruct_Subscription_ok [OF del [unfolded None]] remove_key_length [OF dist, of id'] db' r None
    show ?thesis by auto
  next
    case (Some err)
    from DeleteStruct_Subscription_err [OF del [unfolded Some]] db' r Some
    show ?thesis by (auto simp: contents_def)
  qed
qed

lemma DeleteClient_frame:
  assumes "db s = Some d" and "wf_DB d"
  shows "\<exists>d'. db (state_after (DeleteClient id') s) = Some d' \<and>
           ServerInfo_bucket d' = ServerInfo_bucket d \<and>
           Subscription_bucket d' = Subscription_bucket d \<and>
           Message_bucket d' = Message_bucket d \<and>
           filter (\<lambda>x. Client.ID x \<noteq> id') (Client_bucket d') =
             filter (\<lambda>x. Client.ID x \<noteq> id') (Client_bucket d) \<and>
           length (Client_bucket d) \<le> Suc (length (Client_bucket d')) \<and>
           (fst (DeleteClient id' s) = None \<longrightarrow> id' \<notin> set (map Client.ID (Client_bucket d')))"
proof -
  obtain e d' where del: "DeleteStruct_Client (zero_Client\<lparr>Client.ID := id'\<rparr>) d = (e, d')"
    by (cases "DeleteStruct_Client (zero_Client\<lparr>Client.ID := id'\<rparr>) d") auto
  from assms(1) del have r: "fst (DeleteClient id' s) = e" and db': "db (state_after (DeleteClient id') s) = Some d'"
    by (auto simp: DeleteClient_def state_after_def split: option.splits)
  from assms(2) have dist: "distinct (map Client.ID (Client_bucket d))"
    by (simp add: wf_DB_def)
  show ?thesis
  proof (cases e)
    case None
    from DeleteStruct_Client_ok [OF del [unfolded None]] remove_key_length [OF dist, of id'] db' r None
    show ?thesis by auto
  next
    case (Some err)
    from DeleteStruct_Client_err [OF del [unfolded Some]] db' r Some
    show ?thesis by (auto simp: contents_def)
  qed
qed

lemma DeleteInflight_frame:
  assumes "db s = Some d" and "wf_DB d"
  shows "\<exists>d'. db (state_after (DeleteInflight id') s) = Some d' \<and>
           ServerInfo_bucket d' = ServerInfo_bucket d \<and>
           Client_bucket d' = Client_bucket d \<and>
           Subscription_bucket d' = Subscription_bucket d \<and>
           filter (\<lambda>x. Message.ID x \<noteq> id') (Message_bucket d') =
             filter (\<lambda>x. Message.ID x \<noteq> id') (Message_bucket d) \<and>
           length (Message_bucket d) \<le> Suc (length (Message_bucket d')) \<and>
           (fst (DeleteInflight id' s) = None \<longrightarrow> id' \<notin> set (map Message.ID (Message_bucket d')))"
proof -
  obtain e d' where del: "DeleteStruct_Message (zero_Message\<lparr>Message.ID := id'\<rparr>) d = (e, d')"
    by (cases "DeleteStruct_Message (zero_Message\<lparr>Message.ID := id'\<rparr>) d") auto
  from assms(1) del have r: "fst (DeleteInflight id' s) = e" and db': "db (state_after (DeleteInflight id') s) = Some d'"
    by (auto simp: DeleteInflight_def state_after_def split: option.splits)
  from assms(2) have dist: "distinct (map Message.ID (Message_bucket d))"
    by (simp add: wf_DB_def)
  show ?thesis
  proof (cases e)
    case None
    from DeleteStruct_Message_ok [OF del [unfolded None]] remove_key_length [OF dist, of id'] db' r None
    show ?thesis by auto
  next
    case (Some err)
    from DeleteStruct_Message_err [OF del [unfolded Some]] db' r Some
    show ?thesis by (auto simp: contents_def)
  qed
qed

lemma DeleteRetained_frame:
  assumes "db s = Some d" and "wf_DB d"
  shows "\<exists>d'. db (state_after (DeleteRetained id') s) = Some d' \<and>
           ServerInfo_bucket d' = ServerInfo_bucket d \<and>
           Client_bucket d' = Client_bucket d \<and>
           Subscription_bucket d' = Subscription_bucket d \<and>
           filter (\<lambda>x. Message.ID x \<noteq> id') (Message_bucket d') =
             filter (\<lambda>x. Message.ID x \<noteq> id') (Message_bucket d) \<and>
           length (Message_bucket d) \<le> Suc (length (Message_bucket d')) \<and>
           (fst (DeleteRetained id' s) = None \<longrightarrow> id' \<notin> set (map Message.ID (Message_bucket d')))"
proof -
  obtain e d' where del: "DeleteStruct_Message (zero_Message\<lparr>Message.ID := id'\<rparr>) d = (e, d')"
    by (cases "DeleteStruct_Message (zero_Message\<lparr>Message.ID := id'\<rparr>) d") auto
  from assms(1) del have r: "fst (DeleteRetained id' s) = e" and db': "db (state_after (DeleteRetained id') s) = Some d'"
    by (auto simp: DeleteRetained_def state_after_def split: option.splits)
  from assms(2) have dist: "distinct (map Message.ID (Message_bucket d))"
    by (simp add: wf_DB_def)
  show ?thesis
  proof (cases e)
    case None
    from DeleteStruct_Message_ok [OF del [unfolded None]] remove_key_length [OF dist, of id'] db' r None
    show ?thesis by auto
  next
    case (Some err)
    from DeleteStruct_Message_err [OF del [unfolded Some]] db' r Some
    show ?thesis by (auto simp: contents_def)
  qed
qed

text \<open>
  C8, as the code has it. On an opened store whose buckets hold no identifier twice, a
  delete leaves the three other buckets as they were and, in the bucket of its record
  type, every record with another identifier; the bucket loses at most one record, and
  after a delete that returns no error no record of the bucket has the identifier. The
  kind is not part of the call: \<open>DeleteInflight\<close> and \<open>DeleteRetained\<close> are the same
  function on the shared bucket of messages, whichever discriminator the record has.
\<close>

theorem Delete_by_identifier_only:
  assumes "db s = Some d" and "wf_DB d"
  shows "(\<exists>d'. db (state_after (DeleteSubscription id') s) = Some d' \<and>
            ServerInfo_bucket d' = ServerInfo_bucket d \<and>
            Client_bucket d' = Client_bucket d \<and>
            Message_bucket d' = Message_bucket d \<and>
            filter (\<lambda>x. Subscription.ID x \<noteq> id') (Subscription_bucket d') =
              filter (\<lambda>x. Subscription.ID x \<noteq> id') (Subscription_bucket d) \<and>
            length (Subscription_bucket d) \<le> Suc (length (Subscription_bucket d')) \<and>
            (fst (DeleteSubscription id' s) = None \<longrightarrow> id' \<notin> set (map Subscription.ID (Subscription_bucket d')))) \<and>
         (\<exists>d'. db (state_after (DeleteClient id') s) = Some d' \<and>
            ServerInfo_bucket d' = ServerInfo_bucket d \<and>
            Subscription_bucket d' = Subscription_bucket d \<and>
            Message_bucket d' = Message_bucket d \<and>
            filter (\<lambda>x. Client.ID x \<noteq> id') (Client_bucket d') =
              filter (\<lambda>x. Client.ID x \<noteq> id') (Client_bucket d) \<and>
            length (Client_bucket d) \<le> Suc (length (Client_bucket d')) \<and>
            (fst (DeleteClient id' s) = None \<longrightarrow> id' \<notin> set (map Client.ID (Client_bucket d')))) \<and>
         (\<exists>d'. db (state_after (DeleteInflight id') s) = Some d' \<and>
            ServerInfo_bucket d' = ServerInfo_bucket d \<and>
            Client_bucket d' = Client_bucket d \<and>
            Subscription_bucket d' = Subscription_bucket d \<and>
            filter (\<lambda>x. Message.ID x \<noteq> id') (Message_bucket d') =
              filter (\<lambda>x. Message.ID x \<noteq> id') (Message_bucket d) \<and>
            length (Message_bucket d) \<le> Suc (length (Message_bucket d')) \<and>
            (fst (DeleteInflight id' s) = None \<longrightarrow> id' \<notin> set (map Message.ID (Message_bucket d')))) \<and>
         (\<exists>d'. db (state_after (DeleteRetained id') s) = Some d' \<and>
            ServerInfo_bucket d' = ServerInfo_bucket d \<and>
            Client_bucket d' = Client_bucket d \<and>
            Subscription_bucket d' = Subscription_bucket d \<and>
            filter (\<lambda>x. Message.ID x \<noteq> id') (Message_bucket d') =
              filter (\<lambda>x. Message.ID x \<noteq> id') (Message_bucket d) \<and>
            length (Message_bucket d) \<le> Suc (length (Message_bucket d')) \<and>
            (fst (DeleteRetained id' s) = None \<longrightarrow> id' \<notin> set (map Message.ID (Message_bucket d')))) \<and>
         DeleteInflight id' s = DeleteRetained id' s"
  using DeleteSubscription_frame [OF assms, of id'] DeleteClient_frame [OF assms, of id']
    DeleteInflight_frame [OF assms, of id'] DeleteRetained_frame [OF assms, of id']
  by (simp add: DeleteInflight_def DeleteRetained_def)

theorem Delete_by_identifier_only_witness:
  "db (opened_on sweep_DB) = Some sweep_DB \<and> wf_DB sweep_DB \<and>
   fst (DeleteInflight ''b'' (opened_on sweep_DB)) = None \<and>
   Message_bucket (the (db (state_after (DeleteInflight ''b'') (opened_on sweep_DB)))) =
     [inflight ''a'' 0, retained ''r'' ''p'', inflight ''c'' 200, inflight ''d'' 300]"
proof -
  have a: "db (opened_on sweep_DB) = Some sweep_DB"
    by (simp add: opened_on_def Open_def)
  have b: "wf_DB sweep_DB"
    by (simp add: wf_DB_def fixture_defs)
  have c: "fst (DeleteInflight ''b'' (opened_on sweep_DB)) = None"
    by code_simp
  from Delete_by_identifier_only [OF a b, of "''b''"] c obtain d' where
    d': "db (state_after (DeleteInflight ''b'') (opened_on sweep_DB)) = Some d'"
      "filter (\<lambda>x. ID x \<noteq> ''b'') (Message_bucket d') =
         filter (\<lambda>x. ID x \<noteq> ''b'') (Message_bucket sweep_DB)"
      "''b'' \<notin> set (map ID (Message_bucket d'))"
    by auto
  from d'(3) have "filter (\<lambda>x. ID x \<noteq> ''b'') (Message_bucket d') = Message_bucket d'"
    by (rule filter_absent_other)
  with d'(1,2) a b c show ?thesis
    by (simp add: fixture_defs)
qed

text \<open>
  The claim as stated keeps a record of the other kind of message that has the
  identifier. \<open>DeleteInflight\<close> of \<open>r\<close> removes the retained message \<open>r\<close>.
\<close>

theorem Delete_other_kind_counterexample:
  "db (opened_on sweep_DB) = Some sweep_DB \<and>
   T (retained ''r'' ''p'') = KRetained \<and> KRetained \<noteq> KInflight \<and>
   retained ''r'' ''p'' \<in> set (Message_bucket sweep_DB) \<and>
   fst (DeleteInflight ''r'' (opened_on sweep_DB)) = None \<and>
   retained ''r'' ''p'' \<notin> set (Message_bucket (the (db
      (state_after (DeleteInflight ''r'') (opened_on sweep_DB)))))"
  by (simp add: DeleteInflight_def DeleteStruct_Message_def storm_DeleteStruct_def begin_tx_def
      fixture_defs)

subsection \<open>The defaults of New\<close>

text \<open>
  C9. \<open>New\<close> replaces the empty path and the path \<open>.\<close> by \<open>mochi.db\<close> and keeps
  every other path; without options it builds options whose timeout is 250 milliseconds
  (250000000 nanoseconds) and whose other fields are zero; options that are given are
  kept as they are. The handle of the new store is nil.
\<close>

theorem New_defaults:
  "path (New path0 opts0) = (if path0 = [] \<or> path0 = ''.'' then ''mochi.db'' else path0) \<and>
   opts (New path0 None) =
     Some \<lparr>Timeout = 250 * Millisecond, NoGrowSync = False, ReadOnly = False, MmapFlags = 0,
       InitialMmapSize = 0\<rparr> \<and>
   Timeout (the (opts (New path0 None))) = 250000000 \<and>
   opts (New path0 (Some p)) = Some p \<and>
   db (New path0 opts0) = None"
  by (simp add: New_def defaultPath_def defaultTimeout_def Millisecond_def Let_def)

theorem New_defaults_witness:
  "path (New [] None) = ''mochi.db'' \<and> path (New ''.'' None) = ''mochi.db'' \<and>
   path (New ''data/broker.db'' None) = ''data/broker.db'' \<and>
   Timeout (the (opts (New ''data/broker.db'' None))) = 250 * 1000000 \<and>
   opts (New [] (Some \<lparr>Timeout = 7, NoGrowSync = True, ReadOnly = False, MmapFlags = 0,
       InitialMmapSize = 0\<rparr>)) =
     Some \<lparr>Timeout = 7, NoGrowSync = True, ReadOnly = False, MmapFlags = 0,
       InitialMmapSize = 0\<rparr>"
  using New_defaults [of "[]" None] New_defaults [of "''.''" None]
    New_defaults [of "''data/broker.db''" None]
    New_defaults [of "[]" "Some \<lparr>Timeout = 7, NoGrowSync = True, ReadOnly = False,
      MmapFlags = 0, InitialMmapSize = 0\<rparr>" "\<lparr>Timeout = 7, NoGrowSync = True,
      ReadOnly = False, MmapFlags = 0, InitialMmapSize = 0\<rparr>"]
  by simp

subsection \<open>The inflight TTL is stored and never read\<close>

lemma WriteServerInfo_TTL:
  "WriteServerInfo v (SetInflightTTL seconds s) = apsnd (SetInflightTTL seconds) (WriteServerInfo v s)"
  by (simp add: SetInflightTTL_def WriteServerInfo_def split: option.splits prod.splits sum.splits)

lemma WriteSubscription_TTL:
  "WriteSubscription v (SetInflightTTL seconds s) = apsnd (SetInflightTTL seconds) (WriteSubscription v s)"
  by (simp add: SetInflightTTL_def WriteSubscription_def split: option.splits prod.splits sum.splits)

lemma WriteInflight_TTL:
  "WriteInflight v (SetInflightTTL seconds s) = apsnd (SetInflightTTL seconds) (WriteInflight v s)"
  by (simp add: SetInflightTTL_def WriteInflight_def split: option.splits prod.splits sum.splits)

lemma WriteRetained_TTL:
  "WriteRetained v (SetInflightTTL seconds s) = apsnd (SetInflightTTL seconds) (WriteRetained v s)"
  by (simp add: SetInflightTTL_def WriteRetained_def split: option.splits prod.splits sum.splits)

lemma WriteClient_TTL:
  "WriteClient v (SetInflightTTL seconds s) = apsnd (SetInflightTTL seconds) (WriteClient v s)"
  by (simp add: SetInflightTTL_def WriteClient_def split: option.splits prod.splits sum.splits)

lemma DeleteSubscription_TTL:
  "DeleteSubscription id' (SetInflightTTL seconds s) = apsnd (SetInflightTTL seconds) (DeleteSubscription id' s)"
  by (simp add: SetInflightTTL_def DeleteSubscription_def split: option.splits prod.splits sum.splits)

lemma DeleteClient_TTL:
  "DeleteClient id' (SetInflightTTL seconds s) = apsnd (SetInflightTTL seconds) (DeleteClient id' s)"
  by (simp add: SetInflightTTL_def DeleteClient_def split: option.splits prod.splits sum.splits)

lemma DeleteInflight_TTL:
  "DeleteInflight id' (SetInflightTTL seconds s) = apsnd (SetInflightTTL seconds) (DeleteInflight id' s)"
  by (simp add: SetInflightTTL_def DeleteInflight_def split: option.splits prod.splits sum.splits)

lemma DeleteRetained_TTL:
  "DeleteRetained id' (SetInflightTTL seconds s) = apsnd (SetInflightTTL seconds) (DeleteRetained id' s)"
  by (simp add: SetInflightTTL_def DeleteRetained_def split: option.splits prod.splits sum.splits)

lemma ReadSubscriptions_TTL:
  "ReadSubscriptions (SetInflightTTL seconds s) = apsnd (SetInflightTTL seconds) (ReadSubscriptions s)"
  by (simp add: SetInflightTTL_def ReadSubscriptions_def split: option.splits prod.splits sum.splits)

lemma ReadClients_TTL:
  "ReadClients (SetInflightTTL seconds s) = apsnd (SetInflightTTL seconds) (ReadClients s)"
  by (simp add: SetInflightTTL_def ReadClients_def split: option.splits prod.splits sum.splits)

lemma ReadInflight_TTL:
  "ReadInflight (SetInflightTTL seconds s) = apsnd (SetInflightTTL seconds) (ReadInflight s)"
  by (simp add: SetInflightTTL_def ReadInflight_def split: option.splits prod.splits sum.splits)

lemma ReadRetained_TTL:
  "ReadRetained (SetInflightTTL seconds s) = apsnd (SetInflightTTL seconds) (ReadRetained s)"
  by (simp add: SetInflightTTL_def ReadRetained_def split: option.splits prod.splits sum.splits)

lemma ReadServerInfo_TTL:
  "ReadServerInfo (SetInflightTTL seconds s) = apsnd (SetInflightTTL seconds) (ReadServerInfo s)"
  by (simp add: SetInflightTTL_def ReadServerInfo_def split: option.splits prod.splits sum.splits)

lemma ClearExpiredInflight_TTL:
  "ClearExpiredInflight expiry (SetInflightTTL seconds s) = apsnd (SetInflightTTL seconds) (ClearExpiredInflight expiry s)"
  by (simp add: SetInflightTTL_def ClearExpiredInflight_def split: option.splits prod.splits sum.splits)

lemma Open_TTL:
  "Open storm_Open (SetInflightTTL seconds s) = apsnd (SetInflightTTL seconds) (Open storm_Open s)"
  by (simp add: SetInflightTTL_def Open_def split: option.splits prod.splits sum.splits)

lemma Close_TTL:
  "Close (SetInflightTTL seconds s) = map_sum (\<lambda>p. p) (SetInflightTTL seconds) (Close s)"
  by (simp add: SetInflightTTL_def Close_def split: option.splits)

text \<open>
  C10. \<open>SetInflightTTL\<close> sets the field \<open>inflightTTL\<close> and leaves the path, the
  options and the handle as they were. Every other function of the store returns the same
  result on the store with the new TTL as on the store with the old one, and leaves the
  same store but for that field; so the sweep decides by its argument \<open>expiry\<close> alone.
\<close>

theorem SetInflightTTL_frame:
  "path (SetInflightTTL seconds s) = path s \<and> opts (SetInflightTTL seconds s) = opts s \<and>
   db (SetInflightTTL seconds s) = db s \<and> inflightTTL (SetInflightTTL seconds s) = seconds \<and>
   Open storm_Open (SetInflightTTL seconds s) =
     apsnd (SetInflightTTL seconds) (Open storm_Open s) \<and>
   Close (SetInflightTTL seconds s) = map_sum (\<lambda>p. p) (SetInflightTTL seconds) (Close s) \<and>
   WriteServerInfo i (SetInflightTTL seconds s) = apsnd (SetInflightTTL seconds) (WriteServerInfo i s) \<and>
   WriteSubscription u (SetInflightTTL seconds s) = apsnd (SetInflightTTL seconds) (WriteSubscription u s) \<and>
   WriteInflight m (SetInflightTTL seconds s) = apsnd (SetInflightTTL seconds) (WriteInflight m s) \<and>
   WriteRetained m (SetInflightTTL seconds s) = apsnd (SetInflightTTL seconds) (WriteRetained m s) \<and>
   WriteClient c (SetInflightTTL seconds s) = apsnd (SetInflightTTL seconds) (WriteClient c s) \<and>
   DeleteSubscription id' (SetInflightTTL seconds s) = apsnd (SetInflightTTL seconds) (DeleteSubscription id' s) \<and>
   DeleteClient id' (SetInflightTTL seconds s) = apsnd (SetInflightTTL seconds) (DeleteClient id' s) \<and>
   DeleteInflight id' (SetInflightTTL seconds s) = apsnd (SetInflightTTL seconds) (DeleteInflight id' s) \<and>
   DeleteRetained id' (SetInflightTTL seconds s) = apsnd (SetInflightTTL seconds) (DeleteRetained id' s) \<and>
   ReadSubscriptions (SetInflightTTL seconds s) = apsnd (SetInflightTTL seconds) (ReadSubscriptions s) \<and>
   ReadClients (SetInflightTTL seconds s) = apsnd (SetInflightTTL seconds) (ReadClients s) \<and>
   ReadInflight (SetInflightTTL seconds s) = apsnd (SetInflightTTL seconds) (ReadInflight s) \<and>
   ReadRetained (SetInflightTTL seconds s) = apsnd (SetInflightTTL seconds) (ReadRetained s) \<and>
   ReadServerInfo (SetInflightTTL seconds s) = apsnd (SetInflightTTL seconds) (ReadServerInfo s) \<and>
   ClearExpiredInflight expiry (SetInflightTTL seconds s) =
     apsnd (SetInflightTTL seconds) (ClearExpiredInflight expiry s)"
  by (simp add: WriteServerInfo_TTL WriteSubscription_TTL WriteInflight_TTL WriteRetained_TTL
      WriteClient_TTL DeleteSubscription_TTL DeleteClient_TTL DeleteInflight_TTL
      DeleteRetained_TTL ReadSubscriptions_TTL ReadClients_TTL ReadInflight_TTL
      ReadRetained_TTL ReadServerInfo_TTL ClearExpiredInflight_TTL Open_TTL Close_TTL)
    (simp add: SetInflightTTL_def)

theorem SetInflightTTL_frame_witness:
  "inflightTTL (SetInflightTTL 60 (opened_on sweep_DB)) = 60 \<and>
   db (SetInflightTTL 60 (opened_on sweep_DB)) = Some sweep_DB \<and>
   fst (ClearExpiredInflight 200 (SetInflightTTL 60 (opened_on sweep_DB))) =
     fst (ClearExpiredInflight 200 (opened_on sweep_DB)) \<and>
   db (snd (ClearExpiredInflight 200 (SetInflightTTL 60 (opened_on sweep_DB)))) =
     db (snd (ClearExpiredInflight 200 (opened_on sweep_DB))) \<and>
   fst (ReadInflight (SetInflightTTL 60 (opened_on sweep_DB))) =
     fst (ReadInflight (opened_on sweep_DB))"
  using SetInflightTTL_frame [of 60 "opened_on sweep_DB" _ _ _ _ _ _ 200]
  by (simp add: SetInflightTTL_def opened_on_def Open_def)

end
